theory Spec2Isabelle
  imports Main "HOL-Library.Word"
begin

section \<open>JavaScript values\<close>

text \<open>
  A JavaScript string is a sequence of UTF-16 code units; \<open>length\<close>, \<open>substring\<close>,
  \<open>slice\<close> and \<open>trim\<close> all work on code units. \<open>utf16\<close> embeds an ASCII literal.
\<close>

type_synonym code_unit = "16 word"
type_synonym jsstring = "code_unit list"

definition utf16 :: "string \<Rightarrow> jsstring" where
  "utf16 s = map (\<lambda>c. of_nat (of_char c)) s"

text \<open>
  The values that \<open>JSON.parse\<close> and \<open>response.json()\<close> produce. A number is carried as
  its canonical rendering \<open>String(n)\<close>: two numbers are the same value for a \<open>Set\<close> exactly
  when their renderings agree (\<open>0\<close> and \<open>-0\<close> both render as \<open>0\<close>), a number is falsy
  exactly when it renders as \<open>0\<close>, and the rendering is what a template literal inserts.
  An object is the list of its own properties, each key once (for a key repeated in the
  text \<open>JSON.parse\<close> keeps the last value, and that is the entry listed).
\<close>

datatype json =
    JNull
  | JBool bool
  | JNum jsstring
  | JStr jsstring
  | JArr "json list"
  | JObj "(jsstring \<times> json) list"

datatype error_class = Error | TypeError | SyntaxError

text \<open>An \<open>Error\<close> instance: its class and its \<open>message\<close>.\<close>

datatype js_error = JsError error_class jsstring

fun message :: "js_error \<Rightarrow> jsstring" where
  "message (JsError c m) = m"

text \<open>
  Truthiness of a property read; \<open>None\<close> is \<open>undefined\<close>. Objects and arrays, also
  empty ones, are truthy.
\<close>

fun truthy :: "json option \<Rightarrow> bool" where
  "truthy None = False"
| "truthy (Some JNull) = False"
| "truthy (Some (JBool b)) = b"
| "truthy (Some (JNum n)) = (n \<noteq> utf16 ''0'')"
| "truthy (Some (JStr s)) = (s \<noteq> [])"
| "truthy (Some (JArr xs)) = True"
| "truthy (Some (JObj kvs)) = True"

text \<open>
  \<open>v?.name\<close> for the property names this program reads (\<open>alt_text\<close>, \<open>title\<close>,
  \<open>keywords\<close>, \<open>description\<close>, \<open>caption\<close>, \<open>choices\<close>, \<open>message\<close>, \<open>content\<close>): none
  of them is an index, \<open>length\<close> or a property of a built-in prototype, so only an
  object has them, as own properties. On \<open>null\<close> the optional chain gives \<open>undefined\<close>.
\<close>

fun get_opt :: "json \<Rightarrow> string \<Rightarrow> json option" where
  "get_opt (JObj kvs) name = map_of kvs (utf16 name)"
| "get_opt v name = None"

text \<open>\<open>a || b\<close> on property reads, and \<open>a || literal\<close>, which always has a value.\<close>

definition js_or :: "json option \<Rightarrow> json option \<Rightarrow> json option" where
  "js_or a b = (if truthy a then a else b)"

fun or_literal :: "json option \<Rightarrow> json \<Rightarrow> json" where
  "or_literal None literal = literal"
| "or_literal (Some v) literal = (if truthy (Some v) then v else literal)"

subsection \<open>Conversion to a string\<close>

definition cannot_convert :: js_error where
  "cannot_convert = JsError TypeError (utf16 ''Cannot convert object to primitive value'')"

text \<open>
  \<open>ToString\<close>, as a template literal applies it. An array is joined with commas, a
  \<open>null\<close> element giving the empty string. A plain object inherits
  \<open>Object.prototype.toString\<close> and renders as \<open>[object Object]\<close>, unless it has an own
  property \<open>toString\<close>: the value of that property comes from JSON, is not callable, the
  inherited \<open>valueOf\<close> returns the object itself, and the conversion throws a TypeError.
\<close>

fun to_string :: "json \<Rightarrow> js_error + jsstring"
  and join :: "json list \<Rightarrow> js_error + jsstring" where
  "to_string JNull = Inr (utf16 ''null'')"
| "to_string (JBool b) = Inr (utf16 (if b then ''true'' else ''false''))"
| "to_string (JNum n) = Inr n"
| "to_string (JStr s) = Inr s"
| "to_string (JArr xs) = join xs"
| "to_string (JObj kvs) =
     (if utf16 ''toString'' \<in> fst ` set kvs then Inl cannot_convert
      else Inr (utf16 ''[object Object]''))"
| "join [] = Inr []"
| "join (x # xs) =
     (case (if x = JNull then Inr [] else to_string x) of
        Inl e \<Rightarrow> Inl e
      | Inr s \<Rightarrow>
          (if xs = [] then Inr s
           else (case join xs of Inl e \<Rightarrow> Inl e | Inr t \<Rightarrow> Inr (s @ utf16 '','' @ t))))"

text \<open>
  \<open>v.length >= 5\<close> for a truthy \<open>v\<close>. A string or an array has its length; a number or
  a boolean has none, and \<open>undefined >= 5\<close> is false. An object has the value of its own
  property \<open>length\<close>, if any, which \<open>>=\<close> converts to a number: \<open>null\<close> and booleans
  are below 5, a number or a string compares by its numeric value, an array or an object
  is converted to a string first. Reading a string as an IEEE double is the runtime's;
  \<open>ge5\<close> says whether the double read from a string is at least 5 (false for NaN).
\<close>

fun number_ge5 :: "(jsstring \<Rightarrow> bool) \<Rightarrow> json \<Rightarrow> js_error + bool" where
  "number_ge5 ge5 JNull = Inr False"
| "number_ge5 ge5 (JBool b) = Inr False"
| "number_ge5 ge5 (JNum n) = Inr (ge5 n)"
| "number_ge5 ge5 (JStr s) = Inr (ge5 s)"
| "number_ge5 ge5 v = (case to_string v of Inl e \<Rightarrow> Inl e | Inr s \<Rightarrow> Inr (ge5 s))"

definition cannot_read_length :: js_error where
  "cannot_read_length =
     JsError TypeError (utf16 ''Cannot read properties of null (reading 'length')'')"

fun length_ge5 :: "(jsstring \<Rightarrow> bool) \<Rightarrow> json \<Rightarrow> js_error + bool" where
  "length_ge5 ge5 JNull = Inl cannot_read_length"
| "length_ge5 ge5 (JBool b) = Inr False"
| "length_ge5 ge5 (JNum n) = Inr False"
| "length_ge5 ge5 (JStr s) = Inr (5 \<le> length s)"
| "length_ge5 ge5 (JArr xs) = Inr (5 \<le> length xs)"
| "length_ge5 ge5 (JObj kvs) =
     (case map_of kvs (utf16 ''length'') of
        None \<Rightarrow> Inr False
      | Some l \<Rightarrow> number_ge5 ge5 l)"

subsection \<open>Strings and sets\<close>

text \<open>The code units that \<open>trim\<close> removes: WhiteSpace and LineTerminator.\<close>

definition is_white :: "code_unit \<Rightarrow> bool" where
  "is_white c \<longleftrightarrow>
     c \<in> set [0x09, 0x0A, 0x0B, 0x0C, 0x0D, 0x20, 0xA0, 0x1680, 0x2000, 0x2001, 0x2002,
              0x2003, 0x2004, 0x2005, 0x2006, 0x2007, 0x2008, 0x2009, 0x200A, 0x2028,
              0x2029, 0x202F, 0x205F, 0x3000, 0xFEFF]"

definition trim :: "jsstring \<Rightarrow> jsstring" where
  "trim s = rev (dropWhile is_white (rev (dropWhile is_white s)))"

text \<open>
  \<open>Array.from(new Set(xs))\<close>: the elements in insertion order, an element being added
  unless the set already has the same value. Primitives are compared by value; every
  object or array of a parsed JSON text is a reference of its own and equals no other
  element.
\<close>

fun same_value_zero :: "json \<Rightarrow> json \<Rightarrow> bool" where
  "same_value_zero (JArr xs) y = False"
| "same_value_zero (JObj kvs) y = False"
| "same_value_zero x y = (x = y)"

definition set_add :: "json list \<Rightarrow> json \<Rightarrow> json list" where
  "set_add seen x = (if list_ex (\<lambda>y. same_value_zero y x) seen then seen else seen @ [x])"

definition array_from_set :: "json list \<Rightarrow> json list" where
  "array_from_set xs = foldl set_add [] xs"

section \<open>The result schema and processResult\<close>

record validated_result =
  alt_text :: json
  title :: json
  keywords' :: "json list"

fun is_string :: "json \<Rightarrow> bool" where
  "is_string (JStr s) = True"
| "is_string v = False"

text \<open>
  \<open>ResultSchema.parse\<close>: the value must be an object whose \<open>alt_text\<close> is a string of
  5 to 160 code units, whose \<open>title\<close> is a string of at least 5, and whose \<open>keywords\<close> is an
  array of 5 to 50 strings. Other keys are dropped. \<open>None\<close> stands for the ZodError.
\<close>

definition ResultSchema_parse :: "json \<Rightarrow> validated_result option" where
  "ResultSchema_parse raw =
     (case (raw, get_opt raw ''alt_text'', get_opt raw ''title'', get_opt raw ''keywords'') of
        (JObj kvs, Some (JStr a), Some (JStr t), Some (JArr ks)) \<Rightarrow>
          (if 5 \<le> length a \<and> length a \<le> 160 \<and> 5 \<le> length t
              \<and> list_all is_string ks \<and> 5 \<le> length ks \<and> length ks \<le> 50
           then Some \<lparr>alt_text = JStr a, title = JStr t, keywords' = ks\<rparr>
           else None)
      | _ \<Rightarrow> None)"

definition fallbackKeywords :: "json list" where
  "fallbackKeywords =
     map (\<lambda>s. JStr (utf16 s)) [''image'', ''photo'', ''visual'', ''content'', ''media'']"

text \<open>The strict branch, after \<open>ResultSchema.parse\<close> has returned.\<close>

definition processedTitle :: "jsstring \<Rightarrow> jsstring" where
  "processedTitle t = (if length t > 70 then trim (take 70 t) else t)"

fun strict_result :: "validated_result \<Rightarrow> validated_result" where
  "strict_result v =
     \<lparr>alt_text = alt_text v,
      title = (case title v of JStr t \<Rightarrow> JStr (processedTitle t) | other \<Rightarrow> other),
      keywords' = take 25 (array_from_set (keywords' v))\<rparr>"

text \<open>
  \<open>x.length >= 5 ? x : `<qualifier> ${x}`\<close>, on the truthy value chosen for a field.
\<close>

definition with_qualifier :: "(jsstring \<Rightarrow> bool) \<Rightarrow> string \<Rightarrow> json \<Rightarrow> js_error + json" where
  "with_qualifier ge5 qualifier x =
     (case length_ge5 ge5 x of
        Inl e \<Rightarrow> Inl e
      | Inr True \<Rightarrow> Inr x
      | Inr False \<Rightarrow>
          (case to_string x of
             Inl e \<Rightarrow> Inl e
           | Inr s \<Rightarrow> Inr (JStr (utf16 qualifier @ s))))"

text \<open>The catch branch: the repair of a value that the schema rejected.\<close>

definition repair :: "(jsstring \<Rightarrow> bool) \<Rightarrow> json \<Rightarrow> js_error + validated_result" where
  "repair ge5 rawResult =
     (let altText = or_literal (js_or (get_opt rawResult ''alt_text'')
                                      (get_opt rawResult ''description''))
                               (JStr (utf16 ''Professional image''));
          title0 = or_literal (js_or (get_opt rawResult ''title'')
                                     (get_opt rawResult ''caption''))
                              (JStr (utf16 ''High-quality image''));
          keywords0 = (case get_opt rawResult ''keywords'' of Some (JArr ks) \<Rightarrow> ks | _ \<Rightarrow> []);
          keywords1 = (if length keywords0 < 5 then take 25 (keywords0 @ fallbackKeywords)
                       else keywords0);
          keywords2 = array_from_set keywords1;
          keywords3 = (if length keywords2 < 5 then fallbackKeywords else keywords2)
      in case with_qualifier ge5 ''Professional '' altText of
           Inl e \<Rightarrow> Inl e
         | Inr a \<Rightarrow>
             (case with_qualifier ge5 ''High-quality '' title0 of
                Inl e \<Rightarrow> Inl e
              | Inr t \<Rightarrow> Inr \<lparr>alt_text = a, title = t, keywords' = take 25 keywords3\<rparr>))"

text \<open>
  \<open>processResult\<close>: the strict branch when the schema accepts the value, the repair
  otherwise. \<open>Inl\<close> is an exception leaving the function.
\<close>

definition processResult :: "(jsstring \<Rightarrow> bool) \<Rightarrow> json \<Rightarrow> js_error + validated_result" where
  "processResult ge5 rawResult =
     (case ResultSchema_parse rawResult of
        Some validated \<Rightarrow> Inr (strict_result validated)
      | None \<Rightarrow> repair ge5 rawResult)"

text \<open>The object that \<open>processResult\<close> returns, as a value.\<close>

definition result_json :: "'a validated_result_scheme \<Rightarrow> json" where
  "result_json r =
     JObj [(utf16 ''alt_text'', alt_text r), (utf16 ''title'', title r),
           (utf16 ''keywords'', JArr (keywords' r))]"

text \<open>
  No two entries of a list are the same value for a \<open>Set\<close>; on strings that is
  distinctness. A primitive is a value that is neither an array nor an object.
\<close>

definition no_same_value :: "json list \<Rightarrow> bool" where
  "no_same_value ks \<longleftrightarrow> (\<forall>j<length ks. \<forall>i<j. \<not> same_value_zero (ks ! i) (ks ! j))"

fun is_primitive :: "json \<Rightarrow> bool" where
  "is_primitive (JArr xs) = False"
| "is_primitive (JObj kvs) = False"
| "is_primitive v = True"

text \<open>
  Each element once, in the order of first occurrence: the specification of the
  de-duplication, to compare \<open>array_from_set\<close> with.
\<close>

fun first_seen :: "'a list \<Rightarrow> 'a list" where
  "first_seen [] = []"
| "first_seen (x # xs) = x # first_seen (filter (\<lambda>y. y \<noteq> x) xs)"

text \<open>
  One reading of numbers for the closed examples below, exact on strings of decimal
  digits. The theorems hold for every \<open>ge5\<close>; no example reads a number.
\<close>

definition digits_ge5 :: "jsstring \<Rightarrow> bool" where
  "digits_ge5 s \<longleftrightarrow>
     s \<noteq> [] \<and> list_all (\<lambda>c. 0x30 \<le> c \<and> c \<le> 0x39) s
     \<and> 5 \<le> foldl (\<lambda>n c. 10 * n + unat (c - 0x30)) 0 s"

section \<open>The retry policy\<close>

text \<open>
  What an operation rejects with: an \<open>Error\<close> instance; or another value that
  \<open>String(value)\<close> converts, given by the string; or a value on which \<open>String(value)\<close>
  throws (an object without a usable \<open>toString\<close>, such as \<open>Object.create(null)\<close>),
  given by what the conversion throws. The representation \<open>'e\<close> of an Error instance
  is left open: it may carry the identity of the object.
\<close>

datatype 'e thrown = ErrorInstance 'e | OtherValue jsstring | NoString "'e thrown"

fun has_string :: "'e thrown \<Rightarrow> bool" where
  "has_string (NoString x) = False"
| "has_string t = True"

text \<open>
  What \<open>withRetry\<close> throws. It is \<open>lastError\<close>: not assigned yet (it reads as
  \<open>undefined\<close>), the caught Error itself, or \<open>new Error(String(error))\<close> made from a
  caught value that is no Error. Or it is what \<open>String(error)\<close> threw inside the
  \<open>catch\<close> block (\<open>Escaped\<close>): nothing catches that, \<open>lastError\<close> is not assigned, and it
  leaves \<open>withRetry\<close> at once.
\<close>

datatype 'e last_error = Unassigned | Caught 'e | Converted jsstring | Escaped "'e thrown"

text \<open>\<open>error instanceof Error ? error : new Error(String(error))\<close>\<close>

fun as_error :: "'e thrown \<Rightarrow> 'e last_error" where
  "as_error (ErrorInstance e) = Caught e"
| "as_error (OtherValue s) = Converted s"
| "as_error (NoString x) = Escaped x"

text \<open>
  The operation \<open>fn\<close> acts on a world \<open>'s\<close>, which it returns updated. A run records
  what \<open>withRetry\<close> does, in order: a call of \<open>fn\<close>, or a sleep, which is the delay
  handed to \<open>setTimeout\<close> and awaited.
\<close>

datatype event = Call | Sleep int

record 's run =
  world :: 's
  events :: "event list"

definition calls :: "'s run \<Rightarrow> nat" where
  "calls r = count_list (events r) Call"

fun delays :: "event list \<Rightarrow> int list" where
  "delays [] = []"
| "delays (Call # es) = delays es"
| "delays (Sleep d # es) = d # delays es"

definition sleeps :: "'s run \<Rightarrow> int list" where
  "sleeps r = delays (events r)"

text \<open>
  The \<open>for\<close> loop of \<open>withRetry\<close>, entered at \<open>attempt\<close>. \<open>maxRetries\<close> is an integer;
  a NaN (from \<open>parseInt\<close>) behaves as \<open>-1\<close> does, since \<open>0 <= NaN\<close> is false and the loop
  is not entered. In the \<open>catch\<close>, the assignment to \<open>lastError\<close> comes first and may
  throw; then the last attempt breaks out of the loop, and any other sleeps. The delay
  is \<open>baseDelayMs * Math.pow(2, attempt)\<close>, for a whole number of milliseconds
  \<open>baseDelayMs\<close>: a product with a power of two, which doubles hold exactly.
\<close>

function withRetry_loop ::
  "('s \<Rightarrow> ('e thrown + 'a) \<times> 's) \<Rightarrow> int \<Rightarrow> int \<Rightarrow> nat \<Rightarrow> 'e last_error \<Rightarrow> 's run
   \<Rightarrow> ('e last_error + 'a) \<times> 's run" where
  "withRetry_loop fn maxRetries baseDelayMs attempt lastError r =
     (if int attempt \<le> maxRetries then
        (case fn (world r) of
           (Inr v, w) \<Rightarrow> (Inr v, r\<lparr>world := w, events := events r @ [Call]\<rparr>)
         | (Inl error, w) \<Rightarrow>
             (if \<not> has_string error
              then (Inl (as_error error), r\<lparr>world := w, events := events r @ [Call]\<rparr>)
              else if int attempt = maxRetries
              then (Inl (as_error error), r\<lparr>world := w, events := events r @ [Call]\<rparr>)
              else withRetry_loop fn maxRetries baseDelayMs (Suc attempt) (as_error error)
                     (r\<lparr>world := w,
                        events := events r @ [Call, Sleep (baseDelayMs * 2 ^ attempt)]\<rparr>)))
      else (Inl lastError, r))"
  by pat_completeness auto
termination
  by (relation "measure (\<lambda>(fn, maxRetries, baseDelayMs, attempt, lastError, r).
                  nat (maxRetries + 1 - int attempt))") auto

declare withRetry_loop.simps [simp del]

definition withRetry ::
  "('s \<Rightarrow> ('e thrown + 'a) \<times> 's) \<Rightarrow> int \<Rightarrow> int \<Rightarrow> 's \<Rightarrow> ('e last_error + 'a) \<times> 's run" where
  "withRetry fn maxRetries baseDelayMs w =
     withRetry_loop fn maxRetries baseDelayMs 0 Unassigned \<lparr>world = w, events = []\<rparr>"

text \<open>
  The world before the \<open>n\<close>-th call of the operation (counting from 0), and what that
  call returns.
\<close>

fun world_before :: "('s \<Rightarrow> 'r \<times> 's) \<Rightarrow> 's \<Rightarrow> nat \<Rightarrow> 's" where
  "world_before fn w 0 = w"
| "world_before fn w (Suc n) = snd (fn (world_before fn w n))"

definition outcome :: "('s \<Rightarrow> 'r \<times> 's) \<Rightarrow> 's \<Rightarrow> nat \<Rightarrow> 'r" where
  "outcome fn w n = fst (fn (world_before fn w n))"

text \<open>
  A call fails plainly when it rejects with an Error instance or with a value that
  \<open>String\<close> converts.
\<close>

definition plain_failure :: "'e thrown + 'a \<Rightarrow> bool" where
  "plain_failure x = (case x of Inl t \<Rightarrow> has_string t | Inr v \<Rightarrow> False)"

text \<open>
  The events of \<open>j\<close> failed calls from attempt \<open>a\<close> on, each followed by its sleep of
  \<open>b * 2 ^ attempt\<close>, and of one more call: every sleep lies between two calls, and
  the last event is a call.
\<close>

fun backoff_events :: "int \<Rightarrow> nat \<Rightarrow> nat \<Rightarrow> event list" where
  "backoff_events b a 0 = [Call]"
| "backoff_events b a (Suc j) = Call # Sleep (b * 2 ^ a) # backoff_events b (Suc a) j"

section \<open>The protocol adapters\<close>

text \<open>Decimal rendering of a whole number, as a template literal inserts it.\<close>

fun decimal :: "nat \<Rightarrow> jsstring" where
  "decimal n =
     (if n < 10 then [of_nat (48 + n)]
      else decimal (n div 10) @ [of_nat (48 + n mod 10)])"

declare decimal.simps [simp del]

definition new_Error :: "jsstring \<Rightarrow> js_error" where
  "new_Error m = JsError Error m"

definition type_error :: "string \<Rightarrow> js_error" where
  "type_error m = JsError TypeError (utf16 m)"

text \<open>
  \<open>fetchWithTimeout\<close> is not among the sources; what one call of it does is an input.
  It rejects (timeout, transport failure), or resolves to a response, whose \<open>json()\<close>
  gives the parsed body or rejects in turn.
\<close>

record response =
  ok :: bool
  status :: nat
  statusText :: jsstring
  json_body :: "js_error thrown + json"

datatype fetch_result = Rejects "js_error thrown" | Resolves response

text \<open>
  The result of \<open>analyzeImage\<close>: the fields of the processed result, and the response
  data as \<open>raw\<close>.
\<close>

record AnalyzeResult = validated_result +
  raw :: json

definition with_raw :: "validated_result \<Rightarrow> json \<Rightarrow> AnalyzeResult" where
  "with_raw r data =
     \<lparr>alt_text = alt_text r, title = title r, keywords' = keywords' r, raw = data\<rparr>"

subsection \<open>The Custom adapter\<close>

definition invalid_response_format :: js_error where
  "invalid_response_format = new_Error (utf16 ''Invalid response format from custom backend'')"

text \<open>
  The body of \<open>makeRequest\<close> after \<open>fetchWithTimeout\<close> has settled. Building the request
  (reading and encoding the image) comes before it and outside the retried operation.
\<close>

definition custom_attempt :: "(jsstring \<Rightarrow> bool) \<Rightarrow> fetch_result \<Rightarrow> js_error thrown + AnalyzeResult" where
  "custom_attempt ge5 fetched =
     (case fetched of
        Rejects t \<Rightarrow> Inl t
      | Resolves response \<Rightarrow>
          (if \<not> ok response then
             Inl (ErrorInstance (new_Error (utf16 ''Custom backend error: ''
                    @ decimal (status response) @ utf16 '' '' @ statusText response)))
           else
             (case json_body response of
                Inl t \<Rightarrow> Inl t
              | Inr data \<Rightarrow>
                  (if data = JNull then
                     Inl (ErrorInstance
                       (type_error ''Cannot read properties of null (reading 'alt_text')''))
                   else if \<not> (truthy (get_opt data ''alt_text'') \<and> truthy (get_opt data ''title'')
                                \<and> truthy (get_opt data ''keywords''))
                   then Inl (ErrorInstance invalid_response_format)
                   else
                     (case processResult ge5 data of
                        Inl e \<Rightarrow> Inl (ErrorInstance e)
                      | Inr validatedResult \<Rightarrow> Inr (with_raw validatedResult data))))))"

text \<open>
  The network is the sequence of what the successive requests meet; the world of the
  operation is the number of requests made so far.
\<close>

definition custom_makeRequest ::
  "(jsstring \<Rightarrow> bool) \<Rightarrow> (nat \<Rightarrow> fetch_result) \<Rightarrow> nat \<Rightarrow> (js_error thrown + AnalyzeResult) \<times> nat" where
  "custom_makeRequest ge5 net n = (custom_attempt ge5 (net n), Suc n)"

definition custom_analyzeImage ::
  "(jsstring \<Rightarrow> bool) \<Rightarrow> (nat \<Rightarrow> fetch_result) \<Rightarrow> int
   \<Rightarrow> (js_error last_error + AnalyzeResult) \<times> nat run" where
  "custom_analyzeImage ge5 net retries = withRetry (custom_makeRequest ge5 net) retries 1000 0"

subsection \<open>The Chat-Completions adapter\<close>

text \<open>\<open>v?.[0]\<close> and the optional chain \<open>x?.f\<close>, which is \<open>undefined\<close> on null and undefined.\<close>

fun index0 :: "json \<Rightarrow> json option" where
  "index0 (JArr xs) = (case xs of [] \<Rightarrow> None | x # rest \<Rightarrow> Some x)"
| "index0 (JStr s) = (case s of [] \<Rightarrow> None | c # rest \<Rightarrow> Some (JStr [c]))"
| "index0 (JObj kvs) = map_of kvs (utf16 ''0'')"
| "index0 v = None"

fun opt_chain :: "json option \<Rightarrow> (json \<Rightarrow> json option) \<Rightarrow> json option" where
  "opt_chain None f = None"
| "opt_chain (Some JNull) f = None"
| "opt_chain (Some v) f = f v"

definition startsWith :: "jsstring \<Rightarrow> jsstring \<Rightarrow> bool" where
  "startsWith s p \<longleftrightarrow> take (length p) s = p"

definition endsWith :: "jsstring \<Rightarrow> jsstring \<Rightarrow> bool" where
  "endsWith s p \<longleftrightarrow> length p \<le> length s \<and> drop (length s - length p) s = p"

text \<open>
  The match of \<open>/\{[\s\S]*\}/\<close>: from the first opening brace to the last closing brace
  after it, if there is one.
\<close>

definition match_braces :: "jsstring \<Rightarrow> jsstring option" where
  "match_braces s =
     (case dropWhile (\<lambda>c. c \<noteq> 0x7B) s of
        [] \<Rightarrow> None
      | open_brace # rest \<Rightarrow>
          (if 0x7D \<in> set rest
           then Some (open_brace # rev (dropWhile (\<lambda>c. c \<noteq> 0x7D) (rev rest)))
           else None))"

text \<open>The text handed to \<open>JSON.parse\<close>: \<open>slice(7, -3)\<close> and \<open>slice(3, -3)\<close> drop the fences.\<close>

definition cleanContent :: "jsstring \<Rightarrow> jsstring" where
  "cleanContent content =
     (let c0 = trim content;
          c1 = (if startsWith c0 (utf16 ''```json'') \<and> endsWith c0 (utf16 ''```'')
                then trim (drop 7 (take (length c0 - 3) c0))
                else if startsWith c0 (utf16 ''```'') \<and> endsWith c0 (utf16 ''```'')
                then trim (drop 3 (take (length c0 - 3) c0))
                else c0)
      in case match_braces c1 of Some m \<Rightarrow> m | None \<Rightarrow> c1)"

definition failed_to_parse :: "jsstring \<Rightarrow> js_error" where
  "failed_to_parse content =
     new_Error (utf16 ''Failed to parse JSON from model response: '' @ content)"

text \<open>
  The inner \<open>try\<close> with its \<open>catch\<close>. \<open>JSON.parse\<close> is the runtime's: \<open>json_parse\<close> gives
  the value, or \<open>None\<close> for a SyntaxError. A content that is no string has no \<open>trim\<close>
  method; the TypeError is caught like the SyntaxError, and the message of the new Error
  converts the content to a string, which may throw in its turn.
\<close>

definition parsedContent :: "(jsstring \<Rightarrow> json option) \<Rightarrow> json \<Rightarrow> js_error + json" where
  "parsedContent json_parse content =
     (case content of
        JStr s \<Rightarrow>
          (case json_parse (cleanContent s) of
             Some v \<Rightarrow> Inr v
           | None \<Rightarrow> Inl (failed_to_parse s))
      | other \<Rightarrow>
          (case to_string other of
             Inl e \<Rightarrow> Inl e
           | Inr s \<Rightarrow> Inl (failed_to_parse s)))"

definition no_content :: js_error where
  "no_content = new_Error (utf16 ''No content in OpenAI response'')"

definition chat_attempt ::
  "(jsstring \<Rightarrow> bool) \<Rightarrow> (jsstring \<Rightarrow> json option) \<Rightarrow> fetch_result
   \<Rightarrow> js_error thrown + AnalyzeResult" where
  "chat_attempt ge5 json_parse fetched =
     (case fetched of
        Rejects t \<Rightarrow> Inl t
      | Resolves response \<Rightarrow>
          (if \<not> ok response then
             Inl (ErrorInstance (new_Error (utf16 ''OpenAI API error: ''
                    @ decimal (status response) @ utf16 '' '' @ statusText response)))
           else
             (case json_body response of
                Inl t \<Rightarrow> Inl t
              | Inr data \<Rightarrow>
                  (if data = JNull then
                     Inl (ErrorInstance
                       (type_error ''Cannot read properties of null (reading 'choices')''))
                   else
                     (let content =
                        opt_chain (opt_chain (opt_chain (get_opt data ''choices'') index0)
                                     (\<lambda>v. get_opt v ''message''))
                          (\<lambda>v. get_opt v ''content'')
                      in case content of
                           None \<Rightarrow> Inl (ErrorInstance no_content)
                         | Some c \<Rightarrow>
                             (if \<not> truthy (Some c) then Inl (ErrorInstance no_content)
                              else
                                (case parsedContent json_parse c of
                                   Inl e \<Rightarrow> Inl (ErrorInstance e)
                                 | Inr parsed \<Rightarrow>
                                     (case processResult ge5 parsed of
                                        Inl e \<Rightarrow> Inl (ErrorInstance e)
                                      | Inr validatedResult \<Rightarrow>
                                          Inr (with_raw validatedResult data)))))))))"

definition chat_makeRequest ::
  "(jsstring \<Rightarrow> bool) \<Rightarrow> (jsstring \<Rightarrow> json option) \<Rightarrow> (nat \<Rightarrow> fetch_result) \<Rightarrow> nat
   \<Rightarrow> (js_error thrown + AnalyzeResult) \<times> nat" where
  "chat_makeRequest ge5 json_parse net n = (chat_attempt ge5 json_parse (net n), Suc n)"

definition chat_analyzeImage ::
  "(jsstring \<Rightarrow> bool) \<Rightarrow> (jsstring \<Rightarrow> json option) \<Rightarrow> (nat \<Rightarrow> fetch_result) \<Rightarrow> int
   \<Rightarrow> (js_error last_error + AnalyzeResult) \<times> nat run" where
  "chat_analyzeImage ge5 json_parse net retries =
     withRetry (chat_makeRequest ge5 json_parse net) retries 1000 0"

section \<open>Preset-aware validation\<close>

record ValidationResult =
  is_valid :: bool
  warnings :: "jsstring list"
  errors :: "jsstring list"

text \<open>
  A row of the \<open>presets\<close> table, as far as validation reads it. The three columns are
  nullable integers.
\<close>

record Preset =
  title_max_length :: "int option"
  keywords_min :: "int option"
  keywords_max :: "int option"

text \<open>
  \<open>preset?.field || dflt\<close>: the default stands in when there is no preset, when the
  field is null, and when it is 0.
\<close>

definition or_default :: "Preset option \<Rightarrow> (Preset \<Rightarrow> int option) \<Rightarrow> int \<Rightarrow> int" where
  "or_default preset field dflt =
     (case preset of
        None \<Rightarrow> dflt
      | Some p \<Rightarrow> (case field p of None \<Rightarrow> dflt | Some n \<Rightarrow> if n = 0 then dflt else n))"

text \<open>
  \<open>String(n)\<close> for a whole number \<open>n\<close>, as a template literal inserts it: the decimal
  digits up to \<open>2 ^ 53\<close> in absolute value. Beyond that it is the runtime's rendering
  (the shortest digits that read back as the same double, in exponent form from
  \<open>1e21\<close> on), \<open>numberToString\<close>. The lengths of strings and arrays stay below
  \<open>2 ^ 53\<close>.
\<close>

definition number_string :: "(int \<Rightarrow> jsstring) \<Rightarrow> int \<Rightarrow> jsstring" where
  "number_string numberToString i =
     (if \<bar>i\<bar> \<le> 9007199254740992
      then (if i < 0 then utf16 ''-'' @ decimal (nat (- i)) else decimal (nat i))
      else numberToString i)"





text \<open>
  Each of the three checks gives the warnings and the errors it pushes, or the TypeError
  of calling \<open>trim\<close> or \<open>toLowerCase\<close> on a value that is no string.
\<close>

definition title_validation ::
  "(int \<Rightarrow> jsstring) \<Rightarrow> json \<Rightarrow> Preset option \<Rightarrow> js_error + jsstring list \<times> jsstring list" where
  "title_validation numberToString metadata preset =
     (case get_opt metadata ''title'' of
        None \<Rightarrow> Inr ([], [utf16 ''Title is required''])
      | Some v \<Rightarrow>
          (if \<not> truthy (Some v) then Inr ([], [utf16 ''Title is required''])
           else
             (case v of
                JStr t \<Rightarrow>
                  (if length (trim t) = 0 then Inr ([], [utf16 ''Title is required''])
                   else
                     (let maxLength = or_default preset title_max_length 70
                      in if int (length t) > maxLength
                         then Inr ([utf16 ''Title exceeds ''
                                      @ number_string numberToString maxLength
                                      @ utf16 '' characters ('' @ decimal (length t)
                                      @ utf16 '')''], [])
                         else Inr ([], [])))
              | other \<Rightarrow> Inl (type_error ''metadata.title.trim is not a function''))))"

definition alt_text_validation :: "json \<Rightarrow> js_error + jsstring list" where
  "alt_text_validation metadata =
     (case get_opt metadata ''alt_text'' of
        None \<Rightarrow> Inr [utf16 ''Alt text is missing'']
      | Some v \<Rightarrow>
          (if \<not> truthy (Some v) then Inr [utf16 ''Alt text is missing'']
           else
             (case v of
                JStr a \<Rightarrow>
                  (if length (trim a) = 0 then Inr [utf16 ''Alt text is missing'']
                   else if length a > 125
                   then Inr [utf16 ''Alt text exceeds 125 characters ('' @ decimal (length a)
                               @ utf16 '')'']
                   else Inr [])
              | other \<Rightarrow> Inl (type_error ''metadata.alt_text.trim is not a function''))))"

text \<open>
  \<open>keywords.map(k => k.toLowerCase())\<close>. Lower-casing is the runtime's (\<open>toLowerCase\<close>);
  the first element that is no string stops the map with a TypeError.
\<close>

fun lower_all :: "(jsstring \<Rightarrow> jsstring) \<Rightarrow> json list \<Rightarrow> js_error + json list" where
  "lower_all toLowerCase [] = Inr []"
| "lower_all toLowerCase (JStr k # ks) =
     (case lower_all toLowerCase ks of
        Inl e \<Rightarrow> Inl e
      | Inr ls \<Rightarrow> Inr (JStr (toLowerCase k) # ls))"
| "lower_all toLowerCase (JNull # ks) =
     Inl (type_error ''Cannot read properties of null (reading 'toLowerCase')'')"
| "lower_all toLowerCase (k # ks) = Inl (type_error ''k.toLowerCase is not a function'')"

definition too_few :: "(int \<Rightarrow> jsstring) \<Rightarrow> nat \<Rightarrow> int \<Rightarrow> jsstring" where
  "too_few numberToString n minKeywords =
     utf16 ''Too few keywords: '' @ decimal n @ utf16 '' (minimum: ''
       @ number_string numberToString minKeywords @ utf16 '')''"

definition too_many :: "(int \<Rightarrow> jsstring) \<Rightarrow> nat \<Rightarrow> int \<Rightarrow> jsstring" where
  "too_many numberToString n maxKeywords =
     utf16 ''Too many keywords: '' @ decimal n @ utf16 '' (maximum: ''
       @ number_string numberToString maxKeywords @ utf16 '')''"

definition keywords_validation ::
  "(jsstring \<Rightarrow> jsstring) \<Rightarrow> (int \<Rightarrow> jsstring) \<Rightarrow> json \<Rightarrow> Preset option
   \<Rightarrow> js_error + jsstring list \<times> jsstring list" where
  "keywords_validation toLowerCase numberToString metadata preset =
     (case get_opt metadata ''keywords'' of
        Some (JArr ks) \<Rightarrow>
          (let minKeywords = or_default preset keywords_min 15;
               maxKeywords = or_default preset keywords_max 25;
               few = (if int (length ks) < minKeywords
                      then [too_few numberToString (length ks) minKeywords] else []);
               many = (if int (length ks) > maxKeywords
                       then [too_many numberToString (length ks) maxKeywords] else [])
           in case lower_all toLowerCase ks of
                Inl e \<Rightarrow> Inl e
              | Inr lowered \<Rightarrow>
                  Inr (few @ many
                         @ (if length (array_from_set lowered) \<noteq> length ks
                            then [utf16 ''Duplicate keywords detected''] else []), []))
      | other \<Rightarrow> Inr ([], [utf16 ''Keywords must be an array'']))"

text \<open>
  \<open>validateMetadata(metadata, preset)\<close>. The metadata is any value or \<open>undefined\<close>
  (\<open>None\<close>); a preset is a row, or \<open>None\<close> for null and undefined.
\<close>

definition no_metadata :: ValidationResult where
  "no_metadata =
     \<lparr>is_valid = False, warnings = [], errors = [utf16 ''No metadata provided'']\<rparr>"

definition validateMetadata ::
  "(jsstring \<Rightarrow> jsstring) \<Rightarrow> (int \<Rightarrow> jsstring) \<Rightarrow> json option \<Rightarrow> Preset option
   \<Rightarrow> js_error + ValidationResult" where
  "validateMetadata toLowerCase numberToString metadata preset =
     (case metadata of
        None \<Rightarrow> Inr no_metadata
      | Some m \<Rightarrow>
          (if \<not> truthy (Some m) then Inr no_metadata
           else
             (case title_validation numberToString m preset of
                Inl e \<Rightarrow> Inl e
              | Inr (w1, e1) \<Rightarrow>
                  (case alt_text_validation m of
                     Inl e \<Rightarrow> Inl e
                   | Inr w2 \<Rightarrow>
                       (case keywords_validation toLowerCase numberToString m preset of
                          Inl e \<Rightarrow> Inl e
                        | Inr (w3, e3) \<Rightarrow>
                            Inr \<lparr>is_valid = (length (e1 @ e3) = 0),
                                 warnings = w1 @ w2 @ w3,
                                 errors = e1 @ e3\<rparr>)))))"

section \<open>The orchestrator\<close>

datatype image_status = Pending | Processing | Completed | ErrorStatus

text \<open>
  A row of the \<open>images\<close> table, as far as processing writes it; the \<open>keywords\<close> column
  holds the JSON text of the value kept here.
\<close>

record image_row =
  col_status :: image_status
  col_alt_text :: "json option"
  col_title :: "json option"
  col_keywords :: "json option"
  col_error_message :: "jsstring option"

record ImageRecord =
  image_id :: jsstring
  original_name :: jsstring
  file_path :: jsstring

text \<open>The three UPDATE statements of \<open>processImagesAsync\<close>, with their parameters.\<close>

datatype statement =
    SetProcessing jsstring
  | SetCompleted jsstring json json "json list"
  | SetError jsstring jsstring

fun statement_id :: "statement \<Rightarrow> jsstring" where
  "statement_id (SetProcessing i) = i"
| "statement_id (SetCompleted i a t ks) = i"
| "statement_id (SetError i m) = i"

fun update_row :: "statement \<Rightarrow> image_row \<Rightarrow> image_row" where
  "update_row (SetProcessing i) row = row\<lparr>col_status := Processing\<rparr>"
| "update_row (SetCompleted i a t ks) row =
     row\<lparr>col_alt_text := Some a, col_title := Some t, col_keywords := Some (JArr ks),
         col_status := Completed\<rparr>"
| "update_row (SetError i m) row = row\<lparr>col_status := ErrorStatus, col_error_message := Some m\<rparr>"

text \<open>
  The store: the table by image id, and every statement issued so far, in order. An
  UPDATE changes the row with the id of its WHERE clause, if there is one.
\<close>

record store =
  images :: "jsstring \<rightharpoonup> image_row"
  issued :: "statement list"

definition execute :: "statement \<Rightarrow> (jsstring \<rightharpoonup> image_row) \<Rightarrow> (jsstring \<rightharpoonup> image_row)" where
  "execute st table =
     (case table (statement_id st) of
        None \<Rightarrow> table
      | Some row \<Rightarrow> table(statement_id st \<mapsto> update_row st row))"

text \<open>
  What the orchestrator runs in: the endpoint (\<open>createModelEndpoint()\<close> and its
  \<open>analyzeImage\<close>, which acts on a world \<open>'w\<close>, the network), the store's verdict on the
  \<open>k\<close>-th statement issued (\<open>Some err\<close> when the callback of \<open>db.run\<close> gets an error), and
  the runtime's \<open>toLowerCase\<close> and rendering of numbers.
\<close>

record 'w env =
  analyzeImage :: "ImageRecord \<Rightarrow> 'w \<Rightarrow> (js_error thrown + AnalyzeResult) \<times> 'w"
  db_error :: "nat \<Rightarrow> statement \<Rightarrow> js_error thrown option"
  toLowerCase :: "jsstring \<Rightarrow> jsstring"
  numberToString :: "int \<Rightarrow> jsstring"

text \<open>The promise around \<open>db.run\<close>: rejected with the error, or resolved after the update.\<close>

definition db_run :: "'w env \<Rightarrow> statement \<Rightarrow> store \<Rightarrow> js_error thrown option \<times> store" where
  "db_run env st s =
     (case db_error env (length (issued s)) st of
        Some err \<Rightarrow> (Some err, s\<lparr>issued := issued s @ [st]\<rparr>)
      | None \<Rightarrow> (None, \<lparr>images = execute st (images s), issued = issued s @ [st]\<rparr>))"

text \<open>The body of the \<open>try\<close> for one record: \<open>Some error\<close> is what it throws.\<close>

definition try_image ::
  "'w env \<Rightarrow> ImageRecord \<Rightarrow> Preset option \<Rightarrow> store \<times> 'w \<Rightarrow> js_error thrown option \<times> store \<times> 'w" where
  "try_image env record preset sw =
     (case db_run env (SetProcessing (image_id record)) (fst sw) of
        (Some err, s1) \<Rightarrow> (Some err, s1, snd sw)
      | (None, s1) \<Rightarrow>
          (case analyzeImage env record (snd sw) of
             (Inl err, w1) \<Rightarrow> (Some err, s1, w1)
           | (Inr result, w1) \<Rightarrow>
               (case validateMetadata (toLowerCase env) (numberToString env)
                       (Some (result_json result)) preset of
                  Inl e \<Rightarrow> (Some (ErrorInstance e), s1, w1)
                | Inr validation \<Rightarrow>
                    (case db_run env (SetCompleted (image_id record) (alt_text result)
                                        (title result) (keywords' result)) s1 of
                       (Some err, s2) \<Rightarrow> (Some err, s2, w1)
                     | (None, s2) \<Rightarrow> (None, s2, w1)))))"

text \<open>\<open>error instanceof Error ? error.message : 'Unknown error'\<close>\<close>

fun error_message :: "js_error thrown \<Rightarrow> jsstring" where
  "error_message (ErrorInstance e) = message e"
| "error_message other = utf16 ''Unknown error''"

text \<open>
  The body of the loop: the \<open>try\<close> and, when it throws, the \<open>catch\<close>, which records
  the message. \<open>Some err\<close> is an error thrown inside the \<open>catch\<close>: nothing catches it.
\<close>

definition process_image ::
  "'w env \<Rightarrow> ImageRecord \<Rightarrow> Preset option \<Rightarrow> store \<times> 'w \<Rightarrow> js_error thrown option \<times> store \<times> 'w" where
  "process_image env record preset sw =
     (case try_image env record preset sw of
        (None, sw1) \<Rightarrow> (None, sw1)
      | (Some error, s1, w1) \<Rightarrow>
          (case db_run env (SetError (image_id record) (error_message error)) s1 of
             (Some err, s2) \<Rightarrow> (Some err, s2, w1)
           | (None, s2) \<Rightarrow> (None, s2, w1)))"

text \<open>
  The loop over the records. The result is \<open>None\<close> when the function returns, and
  \<open>Some err\<close> when it rejects: an error that leaves the body of the loop ends it.
\<close>

fun processImagesAsync ::
  "'w env \<Rightarrow> ImageRecord list \<Rightarrow> Preset option \<Rightarrow> store \<times> 'w \<Rightarrow> js_error thrown option \<times> store \<times> 'w" where
  "processImagesAsync env [] preset sw = (None, sw)"
| "processImagesAsync env (record # rest) preset sw =
     (case process_image env record preset sw of
        (Some err, sw1) \<Rightarrow> (Some err, sw1)
      | (None, sw1) \<Rightarrow> processImagesAsync env rest preset sw1)"

text \<open>
  A row is in a terminal state when its status is \<open>completed\<close> or \<open>error\<close>. A store
  accepts the error updates when no \<open>UPDATE ... SET status = 'error'\<close> fails, whenever
  it is issued.
\<close>

definition terminal :: "image_row \<Rightarrow> bool" where
  "terminal row \<longleftrightarrow> col_status row = Completed \<or> col_status row = ErrorStatus"

definition accepts_error_updates :: "'w env \<Rightarrow> bool" where
  "accepts_error_updates env \<longleftrightarrow> (\<forall>k i m. db_error env k (SetError i m) = None)"

section \<open>Example inputs\<close>

definition repair_example :: json where
  "repair_example =
     JObj [(utf16 ''title'', JStr (utf16 ''Hi'')),
           (utf16 ''keywords'', JArr [JStr (utf16 ''a''), JStr (utf16 ''b'')])]"

text \<open>A title of 71 code units, and four keywords only, which the schema rejects.\<close>

definition long_title_example :: json where
  "long_title_example =
     JObj [(utf16 ''alt_text'', JStr (utf16 ''A red car on a street'')),
           (utf16 ''title'', JStr (replicate 71 0x78)),
           (utf16 ''keywords'', JArr [JStr (utf16 ''car''), JStr (utf16 ''red''),
                                      JStr (utf16 ''street''), JStr (utf16 ''urban'')])]"

text \<open>The value of the JSON text \<open>{"alt_text": {"toString": 1}}\<close>.\<close>

definition own_toString_example :: json where
  "own_toString_example =
     JObj [(utf16 ''alt_text'', JObj [(utf16 ''toString'', JNum (utf16 ''1''))])]"

text \<open>Five keywords, of which four are distinct: the schema accepts the payload.\<close>

definition repeated_keyword_example :: json where
  "repeated_keyword_example =
     JObj [(utf16 ''alt_text'', JStr (utf16 ''A red car on a street'')),
           (utf16 ''title'', JStr (utf16 ''Red car in urban setting'')),
           (utf16 ''keywords'', JArr [JStr (utf16 ''car''), JStr (utf16 ''red''),
                                      JStr (utf16 ''car''), JStr (utf16 ''street''),
                                      JStr (utf16 ''urban'')])]"

definition red_car_example :: json where
  "red_car_example =
     JObj [(utf16 ''alt_text'', JStr (utf16 ''A red car on a street'')),
           (utf16 ''title'', JStr (utf16 ''Red car in urban setting'')),
           (utf16 ''keywords'', JArr [JStr (utf16 ''car''), JStr (utf16 ''red''),
                                      JStr (utf16 ''street''), JStr (utf16 ''urban''),
                                      JStr (utf16 ''vehicle''), JStr (utf16 ''transport'')])]"

definition red_car_keywords :: "json list" where
  "red_car_keywords =
     [JStr (utf16 ''car''), JStr (utf16 ''red''), JStr (utf16 ''street''),
      JStr (utf16 ''urban''), JStr (utf16 ''vehicle''), JStr (utf16 ''transport'')]"

text \<open>
  Operations for the retry policy: one that times out twice and then succeeds, one that
  fails at every call, with the number of the call in the message, and one that rejects
  with the string \<open>boom\<close>, which is no Error.
\<close>

definition times_out_twice :: "nat \<Rightarrow> (js_error thrown + jsstring) \<times> nat" where
  "times_out_twice n =
     (if n < 2 then Inl (ErrorInstance (new_Error (utf16 ''timeout''))) else Inr (utf16 ''done''),
      Suc n)"

definition fails_each_time :: "nat \<Rightarrow> (js_error thrown + jsstring) \<times> nat" where
  "fails_each_time n = (Inl (ErrorInstance (new_Error (utf16 ''timeout '' @ decimal n))), Suc n)"

definition rejects_with_string :: "unit \<Rightarrow> (js_error thrown + jsstring) \<times> unit" where
  "rejects_with_string u = (Inl (OtherValue (utf16 ''boom'')), ())"

text \<open>
  An operation that rejects once with \<open>Object.create(null)\<close>, on which \<open>String\<close>
  throws the TypeError of the conversion, and succeeds from then on.
\<close>

definition rejects_once_without_string :: "nat \<Rightarrow> (js_error thrown + jsstring) \<times> nat" where
  "rejects_once_without_string n =
     (if n = 0 then Inl (NoString (ErrorInstance cannot_convert)) else Inr (utf16 ''done''),
      Suc n)"

text \<open>
  A custom backend that always answers \<open>{}\<close>, and a chat endpoint whose model always
  answers in prose. \<open>sample_parse\<close> agrees with \<open>JSON.parse\<close> on the texts that the
  examples hand to it: the prose is no JSON.
\<close>

definition sample_parse :: "jsstring \<Rightarrow> json option" where
  "sample_parse s = (if s = utf16 ''{}'' then Some (JObj []) else None)"

definition empty_object_response :: fetch_result where
  "empty_object_response =
     Resolves \<lparr>ok = True, status = 200, statusText = utf16 ''OK'', json_body = Inr (JObj [])\<rparr>"

definition always_empty_object :: "nat \<Rightarrow> fetch_result" where
  "always_empty_object n = empty_object_response"

definition prose_response :: fetch_result where
  "prose_response =
     Resolves \<lparr>ok = True, status = 200, statusText = utf16 ''OK'',
       json_body = Inr (JObj [(utf16 ''choices'',
         JArr [JObj [(utf16 ''message'',
           JObj [(utf16 ''content'', JStr (utf16 ''I cannot describe this image.''))])]])])\<rparr>"

definition always_prose :: "nat \<Rightarrow> fetch_result" where
  "always_prose n = prose_response"

text \<open>
  \<open>toLowerCase\<close> on ASCII text, and a preset with the bounds of the stock presets,
  70, 15 and 25.
\<close>

definition ascii_toLowerCase :: "jsstring \<Rightarrow> jsstring" where
  "ascii_toLowerCase s = map (\<lambda>c. if 0x41 \<le> c \<and> c \<le> 0x5A then c + 0x20 else c) s"

text \<open>
  The examples render no number beyond \<open>2 ^ 53\<close>; the rendering of such numbers is
  never consulted there, and any function serves for it.
\<close>

definition any_rendering :: "int \<Rightarrow> jsstring" where
  "any_rendering i = []"


text \<open>
  A batch of three images, all pending, and an endpoint that succeeds on the first and
  the third and times out on the second. One store accepts every statement; the other
  fails from its fourth statement on.
\<close>

definition pending_row :: image_row where
  "pending_row =
     \<lparr>col_status = Pending, col_alt_text = None, col_title = None, col_keywords = None,
      col_error_message = None\<rparr>"

definition image1 :: ImageRecord where
  "image1 = \<lparr>image_id = utf16 ''img-1'', original_name = utf16 ''one.jpg'',
              file_path = utf16 ''uploads/one.jpg''\<rparr>"

definition image2 :: ImageRecord where
  "image2 = \<lparr>image_id = utf16 ''img-2'', original_name = utf16 ''two.jpg'',
              file_path = utf16 ''uploads/two.jpg''\<rparr>"

definition image3 :: ImageRecord where
  "image3 = \<lparr>image_id = utf16 ''img-3'', original_name = utf16 ''three.jpg'',
              file_path = utf16 ''uploads/three.jpg''\<rparr>"

definition three_pending :: store where
  "three_pending =
     \<lparr>images = [utf16 ''img-1'' \<mapsto> pending_row, utf16 ''img-2'' \<mapsto> pending_row,
                utf16 ''img-3'' \<mapsto> pending_row],
      issued = []\<rparr>"

definition red_car_result :: AnalyzeResult where
  "red_car_result =
     \<lparr>alt_text = JStr (utf16 ''A red car on a street''),
      title = JStr (utf16 ''Red car in urban setting''),
      keywords' = red_car_keywords, raw = red_car_example\<rparr>"

definition request_timeout :: js_error where
  "request_timeout = new_Error (utf16 ''Request timeout'')"

definition second_times_out ::
  "ImageRecord \<Rightarrow> unit \<Rightarrow> (js_error thrown + AnalyzeResult) \<times> unit" where
  "second_times_out record u =
     (if image_id record = utf16 ''img-2'' then Inl (ErrorInstance request_timeout)
      else Inr red_car_result, ())"

definition readonly_database :: js_error where
  "readonly_database = new_Error (utf16 ''SQLITE_READONLY: attempt to write a readonly database'')"

definition healthy_env :: "unit env" where
  "healthy_env =
     \<lparr>analyzeImage = second_times_out, db_error = (\<lambda>k st. None),
      toLowerCase = ascii_toLowerCase, numberToString = any_rendering\<rparr>"

definition failing_store_env :: "unit env" where
  "failing_store_env =
     \<lparr>analyzeImage = second_times_out,
      db_error = (\<lambda>k st. if 3 \<le> k then Some (ErrorInstance readonly_database) else None),
      toLowerCase = ascii_toLowerCase, numberToString = any_rendering\<rparr>"

section \<open>Properties of processResult\<close>

lemmas eval_processResult =
  processResult_def ResultSchema_parse_def repair_def with_qualifier_def js_or_def
  fallbackKeywords_def array_from_set_def set_add_def result_json_def utf16_def
  processedTitle_def cannot_convert_def

subsection \<open>De-duplication and trimming\<close>

lemma set_first_seen: "set (first_seen xs) = set xs"
  by (induction xs rule: first_seen.induct) auto

lemma distinct_first_seen: "distinct (first_seen xs)"
  by (induction xs rule: first_seen.induct) (auto simp: set_first_seen)

lemma first_seen_distinct: "distinct xs \<Longrightarrow> first_seen xs = xs"
proof (induction xs)
  case Nil
  then show ?case by simp
next
  case (Cons x xs)
  then have "filter (\<lambda>y. y \<noteq> x) xs = xs"
    by (auto intro: filter_True)
  with Cons show ?case by simp
qed

lemma length_first_seen: "length (first_seen xs) = card (set xs)"
  using distinct_card [OF distinct_first_seen, of xs] by (simp add: set_first_seen)

lemma list_all_first_seen: "list_all P xs \<Longrightarrow> list_all P (first_seen xs)"
  by (simp add: list_all_iff set_first_seen)

lemma list_all_take: "list_all P xs \<Longrightarrow> list_all P (take n xs)"
  by (auto simp: list_all_iff dest: in_set_takeD)

lemma same_value_zero_string: "is_string x \<Longrightarrow> same_value_zero y x \<longleftrightarrow> y = x"
  by (cases x; cases y) auto

lemma set_add_string:
  "is_string x \<Longrightarrow> set_add seen x = (if x \<in> set seen then seen else seen @ [x])"
  by (auto simp: set_add_def list_ex_iff same_value_zero_string)

text \<open>
  The set built by successive insertions, started from \<open>acc\<close>, holds \<open>acc\<close> and then
  the new elements in the order of their first occurrence.
\<close>

lemma foldl_set_add_strings:
  "list_all is_string xs \<Longrightarrow>
   foldl set_add acc xs = acc @ first_seen (filter (\<lambda>x. x \<notin> set acc) xs)"
proof (induction xs arbitrary: acc)
  case Nil
  then show ?case by simp
next
  case (Cons x xs)
  then have x: "is_string x" and xs: "list_all is_string xs" by simp_all
  show ?case
  proof (cases "x \<in> set acc")
    case True
    then show ?thesis using Cons.IH [OF xs, of acc] x by (simp add: set_add_string)
  next
    case False
    have "filter (\<lambda>y. y \<noteq> x) (filter (\<lambda>y. y \<notin> set acc) xs)
          = filter (\<lambda>y. y \<notin> set (acc @ [x])) xs"
      by (auto intro: filter_cong)
    then show ?thesis using Cons.IH [OF xs, of "acc @ [x]"] x False
      by (simp add: set_add_string)
  qed
qed

lemma array_from_set_strings:
  "list_all is_string xs \<Longrightarrow> array_from_set xs = first_seen xs"
  by (simp add: array_from_set_def foldl_set_add_strings)

lemma length_trim_le: "length (trim s) \<le> length s"
proof -
  have "length (dropWhile is_white (rev (dropWhile is_white s)))
        \<le> length (rev (dropWhile is_white s))"
    by (rule length_dropWhile_le)
  also have "\<dots> \<le> length s" by (simp add: length_dropWhile_le)
  finally show ?thesis by (simp add: trim_def)
qed

lemma length_processedTitle: "length (processedTitle t) \<le> 70"
  using length_trim_le [of "take 70 t"] by (simp add: processedTitle_def)

lemma processedTitle_idem: "processedTitle (processedTitle t) = processedTitle t"
  using length_processedTitle [of t] by (simp add: processedTitle_def [of "processedTitle t"])

subsection \<open>The schema\<close>

lemma ResultSchema_parse_SomeD:
  assumes "ResultSchema_parse payload = Some v"
  shows "\<exists>kvs a t ks. payload = JObj kvs
           \<and> map_of kvs (utf16 ''alt_text'') = Some (JStr a)
           \<and> map_of kvs (utf16 ''title'') = Some (JStr t)
           \<and> map_of kvs (utf16 ''keywords'') = Some (JArr ks)
           \<and> v = \<lparr>alt_text = JStr a, title = JStr t, keywords' = ks\<rparr>
           \<and> 5 \<le> length a \<and> length a \<le> 160 \<and> 5 \<le> length t
           \<and> list_all is_string ks \<and> 5 \<le> length ks \<and> length ks \<le> 50"
  using assms
  by (cases payload) (auto simp: ResultSchema_parse_def split: option.splits json.splits if_splits)

lemma ResultSchema_parse_result:
  assumes "5 \<le> length a" "length a \<le> 160" "5 \<le> length t"
      "list_all is_string ks" "5 \<le> length ks" "length ks \<le> 50"
  shows "ResultSchema_parse
           (result_json \<lparr>alt_text = JStr a, title = JStr t, keywords' = ks\<rparr>)
         = Some \<lparr>alt_text = JStr a, title = JStr t, keywords' = ks\<rparr>"
  using assms by (simp add: ResultSchema_parse_def result_json_def utf16_def)

text \<open>
  On the strict branch the title has at most 70 code units and the keywords are
  distinct.
\<close>

lemma strict_result_bounds:
  assumes "ResultSchema_parse payload = Some v"
  shows "\<exists>t. title (strict_result v) = JStr t \<and> length t \<le> 70
           \<and> distinct (keywords' (strict_result v))"
proof -
  from ResultSchema_parse_SomeD [OF assms] obtain a t ks where
    "v = \<lparr>alt_text = JStr a, title = JStr t, keywords' = ks\<rparr>" and "list_all is_string ks"
    by blast
  then show ?thesis
    by (simp add: length_processedTitle array_from_set_strings distinct_first_seen)
qed

text \<open>
  On both branches the keywords returned hold no value twice; where they are strings,
  they are distinct.
\<close>

lemma no_same_value_set_add:
  assumes "no_same_value seen"
  shows "no_same_value (set_add seen x)"
proof (cases "list_ex (\<lambda>y. same_value_zero y x) seen")
  case True
  with assms show ?thesis by (simp add: set_add_def)
next
  case False
  then have new: "\<not> same_value_zero (seen ! i) x" if "i < length seen" for i
    using that by (auto simp: list_ex_iff)
  have "\<not> same_value_zero ((seen @ [x]) ! i) ((seen @ [x]) ! j)"
    if "j < length (seen @ [x])" and "i < j" for i j
  proof (cases "j < length seen")
    case True
    with assms that show ?thesis by (simp add: no_same_value_def nth_append)
  next
    case False
    with that have "j = length seen" "i < length seen" by simp_all
    with new show ?thesis by (simp add: nth_append)
  qed
  with False show ?thesis by (simp add: set_add_def no_same_value_def)
qed

lemma no_same_value_foldl:
  "no_same_value acc \<Longrightarrow> no_same_value (foldl set_add acc xs)"
  by (induction xs arbitrary: acc) (simp_all add: no_same_value_set_add)

lemma no_same_value_array_from_set: "no_same_value (array_from_set xs)"
proof -
  have "no_same_value []" by (simp add: no_same_value_def)
  then show ?thesis unfolding array_from_set_def by (rule no_same_value_foldl)
qed

lemma no_same_value_take: "no_same_value ks \<Longrightarrow> no_same_value (take n ks)"
  by (simp add: no_same_value_def)

lemma no_same_value_fallbackKeywords: "no_same_value fallbackKeywords"
proof -
  have "array_from_set fallbackKeywords = fallbackKeywords"
    by (simp add: array_from_set_def set_add_def fallbackKeywords_def utf16_def)
  with no_same_value_array_from_set [of fallbackKeywords] show ?thesis by simp
qed

lemma no_same_value_strings:
  assumes "list_all is_string ks" and "no_same_value ks"
  shows "distinct ks"
proof -
  have different: "ks ! i \<noteq> ks ! j" if "j < length ks" and "i < j" for i j
  proof -
    from assms(1) that have "is_string (ks ! j)" by (simp add: list_all_length)
    from same_value_zero_string [OF this, of "ks ! i"] assms(2) that
    show ?thesis by (simp add: no_same_value_def)
  qed
  show ?thesis
    unfolding distinct_conv_nth
  proof (intro allI impI)
    fix i j
    assume "i < length ks" "j < length ks" "i \<noteq> j"
    then consider "i < j" | "j < i" by linarith
    then show "ks ! i \<noteq> ks ! j"
    proof cases
      case 1
      with \<open>j < length ks\<close> show ?thesis by (rule different)
    next
      case 2
      with \<open>i < length ks\<close> have "ks ! j \<noteq> ks ! i" by (rule different)
      then show ?thesis by simp
    qed
  qed
qed

lemma processResult_no_same_value:
  assumes "processResult ge5 payload = Inr r"
  shows "no_same_value (keywords' r)"
proof (cases "ResultSchema_parse payload")
  case (Some v)
  with assms show ?thesis
    by (auto simp: processResult_def no_same_value_take no_same_value_array_from_set)
next
  case None
  with assms have "repair ge5 payload = Inr r" by (simp add: processResult_def)
  then show ?thesis
    by (auto simp: repair_def Let_def no_same_value_take no_same_value_array_from_set
          no_same_value_fallbackKeywords split: sum.splits)
qed


text \<open>
  The repair returns whenever the four fields it reads as texts hold primitives, where
  they are present.
\<close>

lemma with_qualifier_primitive:
  assumes "is_primitive x" and "truthy (Some x)"
  shows "\<exists>y. with_qualifier ge5 q x = Inr y"
  using assms by (cases x) (auto simp: with_qualifier_def split: bool.splits)

lemma or_literal_primitive:
  assumes "\<And>v. a = Some v \<Longrightarrow> is_primitive v" and "\<And>v. b = Some v \<Longrightarrow> is_primitive v"
      and "s \<noteq> []"
  shows "is_primitive (or_literal (js_or a b) (JStr s)) \<and> truthy (Some (or_literal (js_or a b) (JStr s)))"
  using assms by (cases a; cases b) (auto simp: js_or_def)

lemma processResult_returns:
  assumes "\<And>v. get_opt payload ''alt_text'' = Some v \<Longrightarrow> is_primitive v"
      and "\<And>v. get_opt payload ''description'' = Some v \<Longrightarrow> is_primitive v"
      and "\<And>v. get_opt payload ''title'' = Some v \<Longrightarrow> is_primitive v"
      and "\<And>v. get_opt payload ''caption'' = Some v \<Longrightarrow> is_primitive v"
  shows "\<exists>r. processResult ge5 payload = Inr r"
proof (cases "ResultSchema_parse payload")
  case (Some v)
  then show ?thesis by (simp add: processResult_def)
next
  case None
  let ?a = "or_literal (js_or (get_opt payload ''alt_text'') (get_opt payload ''description''))
              (JStr (utf16 ''Professional image''))"
  let ?t = "or_literal (js_or (get_opt payload ''title'') (get_opt payload ''caption''))
              (JStr (utf16 ''High-quality image''))"
  have "is_primitive ?a \<and> truthy (Some ?a)"
    by (rule or_literal_primitive) (simp_all add: assms utf16_def)
  from with_qualifier_primitive [of ?a ge5 "''Professional ''"] this
  obtain a where a: "with_qualifier ge5 ''Professional '' ?a = Inr a" by blast
  have "is_primitive ?t \<and> truthy (Some ?t)"
    by (rule or_literal_primitive) (simp_all add: assms utf16_def)
  from with_qualifier_primitive [of ?t ge5 "''High-quality ''"] this
  obtain t where t: "with_qualifier ge5 ''High-quality '' ?t = Inr t" by blast
  from None a t show ?thesis
    by (simp add: processResult_def repair_def Let_def)
qed

subsection \<open>The claims on processResult\<close>

text \<open>
  C2, the title bound, fails on the repair branch; the keywords hold no duplicate on
  either branch (\<open>processResult_no_same_value\<close>). The strict branch cuts the title to
  70 code units (\<open>strict_result_bounds\<close>); the repair branch returns the title it finds.
  The payload \<open>long_title_example\<close> has four keywords, so the schema rejects it, and the
  repaired result carries its title of 71 code units unchanged.
\<close>

theorem repair_keeps_long_title:
  "processResult digits_ge5 long_title_example =
     Inr \<lparr>alt_text = JStr (utf16 ''A red car on a street''),
          title = JStr (replicate 71 0x78),
          keywords' = [JStr (utf16 ''car''), JStr (utf16 ''red''), JStr (utf16 ''street''),
                       JStr (utf16 ''urban''), JStr (utf16 ''image''), JStr (utf16 ''photo''),
                       JStr (utf16 ''visual''), JStr (utf16 ''content''), JStr (utf16 ''media'')]\<rparr>
   \<and> length (replicate 71 (0x78 :: code_unit)) = 71"
  by (simp add: long_title_example_def eval_processResult)

text \<open>
  C3, as stated, fails: \<open>repeated_keyword_example\<close> satisfies the schema with five
  keywords, four of them distinct. Processing leaves four keywords; the schema rejects
  that output, and processing it again takes the repair branch, which pads the keywords
  to nine.
\<close>

theorem processResult_not_idempotent:
  "ResultSchema_parse repeated_keyword_example =
     Some \<lparr>alt_text = JStr (utf16 ''A red car on a street''),
           title = JStr (utf16 ''Red car in urban setting''),
           keywords' = [JStr (utf16 ''car''), JStr (utf16 ''red''), JStr (utf16 ''car''),
                        JStr (utf16 ''street''), JStr (utf16 ''urban'')]\<rparr>
   \<and> processResult digits_ge5 repeated_keyword_example =
       Inr \<lparr>alt_text = JStr (utf16 ''A red car on a street''),
            title = JStr (utf16 ''Red car in urban setting''),
            keywords' = [JStr (utf16 ''car''), JStr (utf16 ''red''), JStr (utf16 ''street''),
                         JStr (utf16 ''urban'')]\<rparr>
   \<and> processResult digits_ge5
         (result_json \<lparr>alt_text = JStr (utf16 ''A red car on a street''),
                       title = JStr (utf16 ''Red car in urban setting''),
                       keywords' = [JStr (utf16 ''car''), JStr (utf16 ''red''),
                                    JStr (utf16 ''street''), JStr (utf16 ''urban'')]\<rparr>) =
       Inr \<lparr>alt_text = JStr (utf16 ''A red car on a street''),
            title = JStr (utf16 ''Red car in urban setting''),
            keywords' = [JStr (utf16 ''car''), JStr (utf16 ''red''), JStr (utf16 ''street''),
                         JStr (utf16 ''urban''), JStr (utf16 ''image''), JStr (utf16 ''photo''),
                         JStr (utf16 ''visual''), JStr (utf16 ''content''),
                         JStr (utf16 ''media'')]\<rparr>"
  by (simp add: repeated_keyword_example_def eval_processResult)

text \<open>
  C3, amended: for every payload that satisfies the schema, that has at least five
  distinct keywords, and whose title still has at least five code units after the cut
  to 70 and the trim, \<open>processResult\<close> applied to its own output returns that output.
\<close>

theorem processResult_idempotent:
  assumes "ResultSchema_parse payload = Some v"
      and "title v = JStr t" and "5 \<le> length (processedTitle t)"
      and "5 \<le> card (set (keywords' v))"
  shows "\<exists>r. processResult ge5 payload = Inr r \<and> processResult ge5 (result_json r) = Inr r"
proof -
  from ResultSchema_parse_SomeD [OF assms(1)] obtain a t' ks where
    v: "v = \<lparr>alt_text = JStr a, title = JStr t', keywords' = ks\<rparr>"
    and a: "5 \<le> length a" "length a \<le> 160"
    and str: "list_all is_string ks"
    by blast
  from v assms(2) have t: "t' = t" by simp
  let ?ks = "take 25 (first_seen ks)"
  let ?r = "\<lparr>alt_text = JStr a, title = JStr (processedTitle t), keywords' = ?ks\<rparr>"
  have first: "processResult ge5 payload = Inr ?r"
    using assms(1) v t str by (simp add: processResult_def array_from_set_strings)
  have strs: "list_all is_string ?ks"
    using str by (intro list_all_take list_all_first_seen)
  have "5 \<le> length (first_seen ks)"
    using assms(4) v by (simp add: length_first_seen)
  then have len: "5 \<le> length ?ks" "length ?ks \<le> 50" by simp_all
  have parse: "ResultSchema_parse (result_json ?r) = Some ?r"
    using a assms(3) strs len by (rule ResultSchema_parse_result)
  have "first_seen ?ks = ?ks"
    by (intro first_seen_distinct distinct_take distinct_first_seen)
  then have "strict_result ?r = ?r"
    using strs by (simp add: array_from_set_strings processedTitle_idem)
  with parse have "processResult ge5 (result_json ?r) = Inr ?r"
    by (simp add: processResult_def)
  with first show ?thesis by blast
qed

theorem processResult_idempotent_witness:
  "ResultSchema_parse red_car_example =
     Some \<lparr>alt_text = JStr (utf16 ''A red car on a street''),
           title = JStr (utf16 ''Red car in urban setting''),
           keywords' = red_car_keywords\<rparr>
   \<and> 5 \<le> length (processedTitle (utf16 ''Red car in urban setting''))
   \<and> 5 \<le> card (set red_car_keywords)
   \<and> (\<exists>r. processResult digits_ge5 red_car_example = Inr r
            \<and> processResult digits_ge5 (result_json r) = Inr r)"
proof -
  let ?v = "\<lparr>alt_text = JStr (utf16 ''A red car on a street''),
             title = JStr (utf16 ''Red car in urban setting''),
             keywords' = red_car_keywords\<rparr>"
  have h1: "ResultSchema_parse red_car_example = Some ?v"
    by (simp add: red_car_example_def red_car_keywords_def ResultSchema_parse_def utf16_def)
  have h2: "title ?v = JStr (utf16 ''Red car in urban setting'')" by simp
  have h3: "5 \<le> length (processedTitle (utf16 ''Red car in urban setting''))"
    by (simp add: processedTitle_def utf16_def)
  have h4: "5 \<le> card (set (keywords' ?v))"
    by (simp add: red_car_keywords_def utf16_def)
  from processResult_idempotent [OF h1 h2 h3 h4, of digits_ge5] h1 h3 h4
  show ?thesis by simp
qed

text \<open>
  C8: the payload \<open>{title: "Hi", keywords: ["a", "b"]}\<close> fails the schema, and the
  repair returns the placeholder alt text (18 code units), the title prefixed with the
  qualifier (15 code units), and the two keywords padded with the fallback vocabulary
  (7 keywords): each text has at least 5 code units, and there are at least 5 keywords.
\<close>

theorem repair_example_result:
  "ResultSchema_parse repair_example = None
   \<and> processResult ge5 repair_example =
       Inr \<lparr>alt_text = JStr (utf16 ''Professional image''),
            title = JStr (utf16 ''High-quality Hi''),
            keywords' = [JStr (utf16 ''a''), JStr (utf16 ''b''), JStr (utf16 ''image''),
                         JStr (utf16 ''photo''), JStr (utf16 ''visual''),
                         JStr (utf16 ''content''), JStr (utf16 ''media'')]\<rparr>
   \<and> 5 \<le> length (utf16 ''Professional image'') \<and> 5 \<le> length (utf16 ''High-quality Hi'')
   \<and> 5 \<le> length [JStr (utf16 ''a''), JStr (utf16 ''b''), JStr (utf16 ''image''),
                     JStr (utf16 ''photo''), JStr (utf16 ''visual''),
                     JStr (utf16 ''content''), JStr (utf16 ''media'')]"
  by (simp add: repair_example_def eval_processResult)

text \<open>
  C9: for every payload that satisfies the schema, with \<open>ks\<close> its keywords, the
  keywords of the processed result are the first 25 entries of \<open>first_seen ks\<close>, the list
  that has each distinct keyword of \<open>ks\<close> once, in the order of first occurrence. They
  are distinct and at most 25; when \<open>ks\<close> has at most 25 distinct keywords, none is cut.
\<close>

theorem processResult_keywords_first_seen:
  assumes "ResultSchema_parse payload = Some v"
      and "get_opt payload ''keywords'' = Some (JArr ks)"
  shows "\<exists>r. processResult ge5 payload = Inr r
           \<and> keywords' r = take 25 (first_seen ks)
           \<and> distinct (first_seen ks) \<and> set (first_seen ks) = set ks
           \<and> distinct (keywords' r) \<and> length (keywords' r) \<le> 25
           \<and> (card (set ks) \<le> 25 \<longrightarrow> keywords' r = first_seen ks)"
proof -
  from ResultSchema_parse_SomeD [OF assms(1)] obtain kvs a t ks' where
    payload: "payload = JObj kvs" and k: "map_of kvs (utf16 ''keywords'') = Some (JArr ks')"
    and v: "v = \<lparr>alt_text = JStr a, title = JStr t, keywords' = ks'\<rparr>"
    and str: "list_all is_string ks'"
    by blast
  from assms(2) payload k have "ks' = ks" by simp
  with v str show ?thesis
    using assms(1)
    by (simp add: processResult_def array_from_set_strings distinct_first_seen set_first_seen
          length_first_seen)
qed

theorem processResult_keywords_first_seen_witness:
  "ResultSchema_parse repeated_keyword_example =
     Some \<lparr>alt_text = JStr (utf16 ''A red car on a street''),
           title = JStr (utf16 ''Red car in urban setting''),
           keywords' = [JStr (utf16 ''car''), JStr (utf16 ''red''), JStr (utf16 ''car''),
                        JStr (utf16 ''street''), JStr (utf16 ''urban'')]\<rparr>
   \<and> get_opt repeated_keyword_example ''keywords'' =
       Some (JArr [JStr (utf16 ''car''), JStr (utf16 ''red''), JStr (utf16 ''car''),
                   JStr (utf16 ''street''), JStr (utf16 ''urban'')])
   \<and> (\<exists>r. processResult digits_ge5 repeated_keyword_example = Inr r
            \<and> keywords' r = [JStr (utf16 ''car''), JStr (utf16 ''red''),
                              JStr (utf16 ''street''), JStr (utf16 ''urban'')]
            \<and> distinct (keywords' r) \<and> length (keywords' r) \<le> 25)"
proof -
  let ?ks = "[JStr (utf16 ''car''), JStr (utf16 ''red''), JStr (utf16 ''car''),
              JStr (utf16 ''street''), JStr (utf16 ''urban'')]"
  let ?v = "\<lparr>alt_text = JStr (utf16 ''A red car on a street''),
             title = JStr (utf16 ''Red car in urban setting''),
             keywords' = ?ks\<rparr>"
  have h1: "ResultSchema_parse repeated_keyword_example = Some ?v"
    by (simp add: repeated_keyword_example_def ResultSchema_parse_def utf16_def)
  have h2: "get_opt repeated_keyword_example ''keywords'' = Some (JArr ?ks)"
    by (simp add: repeated_keyword_example_def utf16_def)
  have "take 25 (first_seen ?ks) = [JStr (utf16 ''car''), JStr (utf16 ''red''),
                              JStr (utf16 ''street''), JStr (utf16 ''urban'')]"
    by (simp add: utf16_def)
  with processResult_keywords_first_seen [OF h1 h2, of digits_ge5] h1 h2
  show ?thesis by (auto simp del: first_seen.simps)
qed

text \<open>
  C10 fails on the repair branch. At the value of \<open>{"alt_text": {"toString": 1}}\<close> the
  schema rejects the payload, the repair takes the object as alt text, the object has no
  \<open>length\<close>, and the template literal that prefixes the qualifier converts it to a
  string: the TypeError leaves \<open>processResult\<close>. An object or an array in one of the
  four text fields is needed for that (\<open>processResult_returns\<close>).
\<close>

theorem processResult_throws:
  "processResult digits_ge5 own_toString_example = Inl cannot_convert"
  by (simp add: own_toString_example_def eval_processResult)

section \<open>Properties of the retry policy\<close>

lemma world_before_shift: "world_before fn w (Suc n) = world_before fn (snd (fn w)) n"
  by (induction n) simp_all

lemma outcome_shift: "outcome fn w (Suc n) = outcome fn (snd (fn w)) n"
  by (simp add: outcome_def world_before_shift del: world_before.simps)

lemma count_backoff_events: "count_list (backoff_events b a j) Call = Suc j"
  by (induction j arbitrary: a) simp_all

lemma delays_backoff_events: "delays (backoff_events b a j) = map (\<lambda>i. b * 2 ^ i) [a..<a + j]"
proof (induction j arbitrary: a)
  case 0
  then show ?case by simp
next
  case (Suc j)
  have "[a..<a + Suc j] = a # [Suc a..<Suc a + j]"
    by (simp add: upt_conv_Cons)
  with Suc show ?case by (simp del: upt_Suc)
qed

lemma backoff_events_not_empty: "backoff_events b a j \<noteq> []"
  by (cases j) simp_all

lemma last_backoff_events: "last (backoff_events b a j) = Call"
  by (induction j arbitrary: a) (simp_all add: backoff_events_not_empty)

lemma sum_list_backoff: "sum_list (map (\<lambda>i. b * 2 ^ i) [0..<k]) = b * (\<Sum>i<k. 2 ^ i)" for b :: int
  by (induction k) (simp_all add: algebra_simps)

text \<open>
  A plain failure before the last attempt: the loop records the call and the sleep,
  and goes on with the next attempt.
\<close>

lemma withRetry_loop_step:
  assumes "fn (world r) = (Inl e, w)" and "has_string e" and "int attempt < maxRetries"
  shows "withRetry_loop fn maxRetries b attempt l r =
           withRetry_loop fn maxRetries b (Suc attempt) (as_error e)
             (r\<lparr>world := w, events := events r @ [Call, Sleep (b * 2 ^ attempt)]\<rparr>)"
  using assms by (subst withRetry_loop.simps) simp

text \<open>
  A run of \<open>j\<close> plain failures and one more call, at which the loop ends with
  \<open>result\<close>: the events are those of the backoff.
\<close>

lemma withRetry_loop_run:
  fixes fn :: "'s \<Rightarrow> ('e thrown + 'a) \<times> 's" and r :: "'s run"
  assumes "\<forall>i<j. plain_failure (outcome fn (world r) i)"
      and "int (a + j) \<le> maxRetries"
      and last: "\<And>l' r'. world r' = world_before fn (world r) j \<Longrightarrow>
              withRetry_loop fn maxRetries b (a + j) l' r' =
                (result, r'\<lparr>world := world_before fn (world r) (Suc j),
                            events := events r' @ [Call]\<rparr>)"
  shows "withRetry_loop fn maxRetries b a l r =
           (result, \<lparr>world = world_before fn (world r) (Suc j),
                     events = events r @ backoff_events b a j\<rparr>)"
  using assms
proof (induction j arbitrary: a l r)
  case 0
  from "0.prems"(3) [of r l] show ?case by simp
next
  case (Suc j)
  obtain x w where fn: "fn (world r) = (x, w)" by (cases "fn (world r)")
  from Suc.prems(1) have "plain_failure (outcome fn (world r) 0)" by blast
  with fn obtain e where x: "x = Inl e" and e: "has_string e"
    by (cases x) (simp_all add: outcome_def plain_failure_def)
  let ?r = "r\<lparr>world := w, events := events r @ [Call, Sleep (b * 2 ^ a)]\<rparr>"
  have w: "world ?r = snd (fn (world r))" using fn by simp
  have fails: "\<forall>i<j. plain_failure (outcome fn (world ?r) i)"
    using Suc.prems(1) by (auto simp: w outcome_shift [symmetric] simp del: world_before.simps)
  have bound: "int (Suc a + j) \<le> maxRetries" using Suc.prems(2) by simp
  have step: "withRetry_loop fn maxRetries b a l r
              = withRetry_loop fn maxRetries b (Suc a) (as_error e) ?r"
    using fn x e Suc.prems(2) by (intro withRetry_loop_step) simp_all
  have "withRetry_loop fn maxRetries b (Suc a) (as_error e) ?r =
          (result, \<lparr>world = world_before fn (world ?r) (Suc j),
                    events = events ?r @ backoff_events b (Suc a) j\<rparr>)"
  proof (rule Suc.IH [OF fails bound])
    fix l' :: "'e last_error" and r' :: "'s run"
    assume "world r' = world_before fn (world ?r) j"
    then have "world r' = world_before fn (world r) (Suc j)"
      by (simp add: w world_before_shift del: world_before.simps)
    from Suc.prems(3) [OF this, of l']
    show "withRetry_loop fn maxRetries b (Suc a + j) l' r' =
            (result, r'\<lparr>world := world_before fn (world ?r) (Suc j),
                         events := events r' @ [Call]\<rparr>)"
      by (simp add: w world_before_shift del: world_before.simps)
  qed
  with step show ?case
    by (simp add: w world_before_shift del: world_before.simps)
qed

text \<open>The three ways in which the loop ends at a call.\<close>

lemma withRetry_loop_returns:
  assumes "fst (fn (world r)) = Inr v" and "int attempt \<le> maxRetries"
  shows "withRetry_loop fn maxRetries b attempt l r =
           (Inr v, r\<lparr>world := snd (fn (world r)), events := events r @ [Call]\<rparr>)"
  using assms by (subst withRetry_loop.simps) (cases "fn (world r)", simp)

lemma withRetry_loop_last_attempt:
  assumes "fst (fn (world r)) = Inl e" and "int attempt = maxRetries"
  shows "withRetry_loop fn maxRetries b attempt l r =
           (Inl (as_error e), r\<lparr>world := snd (fn (world r)), events := events r @ [Call]\<rparr>)"
  using assms by (subst withRetry_loop.simps) (cases "fn (world r)", simp)

lemma withRetry_loop_escapes:
  assumes "fst (fn (world r)) = Inl (NoString x)" and "int attempt \<le> maxRetries"
  shows "withRetry_loop fn maxRetries b attempt l r =
           (Inl (Escaped x), r\<lparr>world := snd (fn (world r)), events := events r @ [Call]\<rparr>)"
  using assms by (subst withRetry_loop.simps) (cases "fn (world r)", simp)

lemma withRetry_success_run:
  assumes "\<forall>i<k. plain_failure (outcome fn w i)"
      and "outcome fn w k = Inr v"
      and "int k \<le> maxRetries"
  shows "withRetry fn maxRetries b w =
           (Inr v, \<lparr>world = world_before fn w (Suc k), events = backoff_events b 0 k\<rparr>)"
  unfolding withRetry_def
  using assms
  by (subst withRetry_loop_run [where j = k and result = "Inr v"])
     (simp_all add: withRetry_loop_returns outcome_def del: world_before.simps,
      simp)

lemma withRetry_exhausted_run:
  assumes "\<forall>i\<le>n. plain_failure (outcome fn w i)"
  shows "withRetry fn (int n) b w =
           (Inl (as_error (projl (outcome fn w n))),
            \<lparr>world = world_before fn w (Suc n), events = backoff_events b 0 n\<rparr>)"
proof -
  from assms have "plain_failure (outcome fn w n)" by blast
  then obtain e where e: "outcome fn w n = Inl e"
    by (cases "outcome fn w n") (simp_all add: plain_failure_def)
  from assms have fails: "\<forall>i<n. plain_failure (outcome fn w i)" by simp
  show ?thesis
    unfolding withRetry_def e
    using fails e
    by (subst withRetry_loop_run [where j = n and result = "Inl (as_error e)"])
       (simp_all add: withRetry_loop_last_attempt outcome_def del: world_before.simps,
        simp)
qed

lemma withRetry_escapes_run:
  assumes "\<forall>i<j. plain_failure (outcome fn w i)"
      and "outcome fn w j = Inl (NoString x)"
      and "int j \<le> maxRetries"
  shows "withRetry fn maxRetries b w =
           (Inl (Escaped x), \<lparr>world = world_before fn w (Suc j), events = backoff_events b 0 j\<rparr>)"
  unfolding withRetry_def
  using assms
  by (subst withRetry_loop_run [where j = j and result = "Inl (Escaped x)"])
     (simp_all add: withRetry_loop_escapes outcome_def del: world_before.simps,
      simp)

text \<open>
  Under a negative \<open>maxRetries\<close> the operation is never called, and what is thrown
  is the unassigned \<open>lastError\<close>.
\<close>

lemma withRetry_negative:
  "maxRetries < 0 \<Longrightarrow>
   withRetry fn maxRetries b w = (Inl Unassigned, \<lparr>world = w, events = []\<rparr>)"
  by (simp add: withRetry_def withRetry_loop.simps)

text \<open>
  An operation whose first \<open>k\<close> calls fail plainly and whose next call succeeds, under
  \<open>maxRetries \<ge> k\<close>: \<open>withRetry\<close> returns the value of the successful call. Its
  events are \<open>k\<close> times a call and the sleep after it, then the successful call, so
  that every sleep lies between two calls and none follows the last call; the delay
  after the failure of call \<open>i\<close> is \<open>baseDelayMs * 2 ^ i\<close>, and the delays add up to
  \<open>baseDelayMs * (2 ^ 0 + ... + 2 ^ (k - 1))\<close>.
\<close>

lemma withRetry_succeeds_after_plain_failures:
  assumes "\<forall>i<k. plain_failure (outcome fn w i)"
      and "outcome fn w k = Inr v"
      and "int k \<le> maxRetries"
  shows "fst (withRetry fn maxRetries baseDelayMs w) = Inr v"
    and "events (snd (withRetry fn maxRetries baseDelayMs w)) = backoff_events baseDelayMs 0 k"
    and "calls (snd (withRetry fn maxRetries baseDelayMs w)) = k + 1"
    and "sleeps (snd (withRetry fn maxRetries baseDelayMs w))
           = map (\<lambda>i. baseDelayMs * 2 ^ i) [0..<k]"
    and "sum_list (sleeps (snd (withRetry fn maxRetries baseDelayMs w)))
           = baseDelayMs * (\<Sum>i<k. 2 ^ i)"
    and "last (events (snd (withRetry fn maxRetries baseDelayMs w))) = Call"
  by (simp_all add: withRetry_success_run [OF assms] calls_def sleeps_def count_backoff_events
        delays_backoff_events sum_list_backoff last_backoff_events del: world_before.simps)

lemma times_out_twice_run:
  "fst (withRetry times_out_twice 2 1000 0) = Inr (utf16 ''done'')
   \<and> events (snd (withRetry times_out_twice 2 1000 0))
       = [Call, Sleep 1000, Call, Sleep 2000, Call]"
  by (simp add: withRetry_def withRetry_loop.simps times_out_twice_def)

text \<open>
  C5 does not hold of the code when a failed attempt rejects with a value on which
  \<open>String\<close> throws. The operation that rejects once with \<open>Object.create(null)\<close> and
  succeeds at its second call fails on its first \<open>k = 1\<close> attempts and succeeds on
  attempt \<open>k + 1\<close>; under two retries \<open>withRetry\<close> calls it once, does not sleep, and
  throws the TypeError of the conversion in the \<open>catch\<close> block instead of returning
  the value of the second call.
\<close>

theorem withRetry_stops_at_unconvertible_value:
  "outcome rejects_once_without_string 0 0 = Inl (NoString (ErrorInstance cannot_convert))
   \<and> outcome rejects_once_without_string 0 1 = Inr (utf16 ''done'')
   \<and> fst (withRetry rejects_once_without_string 2 1000 0)
       = Inl (Escaped (ErrorInstance cannot_convert))
   \<and> events (snd (withRetry rejects_once_without_string 2 1000 0)) = [Call]
   \<and> calls (snd (withRetry rejects_once_without_string 2 1000 0)) = 1
   \<and> sleeps (snd (withRetry rejects_once_without_string 2 1000 0)) = []"
  by (simp add: outcome_def rejects_once_without_string_def withRetry_def withRetry_loop.simps
        calls_def sleeps_def)

text \<open>
  In general, the first call that rejects with such a value ends \<open>withRetry\<close>, whatever
  \<open>maxRetries\<close> allows: what the conversion threw is thrown, after the calls and the
  sleeps of the plain failures before it.
\<close>

lemma withRetry_escapes:
  assumes "\<forall>i<j. plain_failure (outcome fn w i)"
      and "outcome fn w j = Inl (NoString x)"
      and "int j \<le> maxRetries"
  shows "fst (withRetry fn maxRetries baseDelayMs w) = Inl (Escaped x)"
    and "calls (snd (withRetry fn maxRetries baseDelayMs w)) = j + 1"
  by (simp_all add: withRetry_escapes_run [OF assms] calls_def count_backoff_events
        del: world_before.simps)

text \<open>
  C4, as stated, fails for an operation that rejects with a value that is no Error
  instance: \<open>withRetry\<close> throws a new Error made from the string of that value, not the
  value of the last attempt.
\<close>

theorem withRetry_converts_other_values:
  "outcome rejects_with_string () 0 = Inl (OtherValue (utf16 ''boom''))
   \<and> fst (withRetry rejects_with_string 0 1000 ()) = Inl (Converted (utf16 ''boom''))"
  by (simp add: outcome_def rejects_with_string_def withRetry_def withRetry_loop.simps)

text \<open>
  C4, amended: an operation that fails plainly at every call, that is, rejects each
  time with an Error instance or with a value that \<open>String\<close> converts, is called
  \<open>n + 1\<close> times under \<open>maxRetries = n\<close>, for a whole number \<open>n\<close>, with the sleeps of the
  backoff between the calls. When the last call rejects with an Error instance, that
  very object is thrown (\<open>Caught e\<close>: identity and message are those of the attempt);
  when it rejects with another value, a new Error is thrown whose message is the
  string of the value. Nothing is said of a value on which \<open>String\<close> throws.
\<close>

theorem withRetry_exhausted:
  assumes "\<forall>i\<le>n. plain_failure (outcome fn w i)"
  shows "calls (snd (withRetry fn (int n) baseDelayMs w)) = n + 1
       \<and> fst (withRetry fn (int n) baseDelayMs w) = Inl (as_error (projl (outcome fn w n)))
       \<and> (\<forall>e. outcome fn w n = Inl (ErrorInstance e)
              \<longrightarrow> fst (withRetry fn (int n) baseDelayMs w) = Inl (Caught e))
       \<and> (\<forall>s. outcome fn w n = Inl (OtherValue s)
              \<longrightarrow> fst (withRetry fn (int n) baseDelayMs w) = Inl (Converted s))
       \<and> events (snd (withRetry fn (int n) baseDelayMs w)) = backoff_events baseDelayMs 0 n
       \<and> sleeps (snd (withRetry fn (int n) baseDelayMs w))
           = map (\<lambda>i. baseDelayMs * 2 ^ i) [0..<n]"
  using withRetry_exhausted_run [OF assms, of baseDelayMs]
  by (auto simp: calls_def sleeps_def count_backoff_events delays_backoff_events
        simp del: world_before.simps)

theorem withRetry_exhausted_witness:
  "plain_failure (outcome fails_each_time 0 0) \<and> plain_failure (outcome fails_each_time 0 1)
   \<and> outcome fails_each_time 0 2 = Inl (ErrorInstance (new_Error (utf16 ''timeout 2'')))
   \<and> calls (snd (withRetry fails_each_time 2 1000 0)) = 3
   \<and> fst (withRetry fails_each_time 2 1000 0) = Inl (Caught (new_Error (utf16 ''timeout 2'')))
   \<and> events (snd (withRetry fails_each_time 2 1000 0))
       = [Call, Sleep 1000, Call, Sleep 2000, Call]
   \<and> sleeps (snd (withRetry fails_each_time 2 1000 0)) = [1000, 2000]"
proof -
  have w: "world_before fails_each_time 0 i = i" for i
    by (induction i) (simp_all add: fails_each_time_def)
  have h1: "\<forall>i\<le>2. plain_failure (outcome fails_each_time 0 i)"
    by (simp add: outcome_def fails_each_time_def plain_failure_def del: world_before.simps)
  have h2: "outcome fails_each_time 0 2 = Inl (ErrorInstance (new_Error (utf16 ''timeout 2'')))"
    by (simp add: outcome_def w fails_each_time_def decimal.simps utf16_def del: world_before.simps)
  have u: "[0..<2] = [0, Suc 0]" by (simp add: upt_conv_Cons)
  have b: "backoff_events 1000 0 2 = [Call, Sleep 1000, Call, Sleep 2000, Call]"
    by (simp add: numeral_2_eq_2)
  from withRetry_exhausted [OF h1, of 1000] h1 h2 u b
  show ?thesis by simp
qed

section \<open>Properties of the adapters\<close>

lemma world_before_custom: "world_before (custom_makeRequest ge5 net) 0 i = i"
  by (induction i) (simp_all add: custom_makeRequest_def)

lemma world_before_chat: "world_before (chat_makeRequest ge5 json_parse net) 0 i = i"
  by (induction i) (simp_all add: chat_makeRequest_def)

lemma outcome_custom: "outcome (custom_makeRequest ge5 net) 0 i = custom_attempt ge5 (net i)"
  by (simp add: outcome_def world_before_custom custom_makeRequest_def del: world_before.simps)

lemma outcome_chat:
  "outcome (chat_makeRequest ge5 json_parse net) 0 i = chat_attempt ge5 json_parse (net i)"
  by (simp add: outcome_def world_before_chat chat_makeRequest_def del: world_before.simps)

lemma custom_shape_error:
  assumes "ok response" and "json_body response = Inr data" and "data \<noteq> JNull"
      and "\<not> (truthy (get_opt data ''alt_text'') \<and> truthy (get_opt data ''title'')
               \<and> truthy (get_opt data ''keywords''))"
  shows "custom_attempt ge5 (Resolves response) = Inl (ErrorInstance invalid_response_format)"
  using assms by (simp add: custom_attempt_def)

lemma chat_format_error:
  assumes "ok response" and "json_body response = Inr data" and "data \<noteq> JNull"
      and "opt_chain (opt_chain (opt_chain (get_opt data ''choices'') index0)
                        (\<lambda>v. get_opt v ''message'')) (\<lambda>v. get_opt v ''content'')
           = Some (JStr content)"
      and "content \<noteq> []" and "json_parse (cleanContent content) = None"
  shows "chat_attempt ge5 json_parse (Resolves response)
         = Inl (ErrorInstance (failed_to_parse content))"
  using assms by (simp add: chat_attempt_def parsedContent_def)

text \<open>
  C1, as stated, fails: both adapters hand the whole of \<open>makeRequest\<close> to \<open>withRetry\<close>,
  parsing and shape check included. With two retries, the custom backend that answers
  \<open>{}\<close> is asked three times, with sleeps of 1000 and 2000 ms, before the shape error
  surfaces; so is the chat endpoint whose content is no JSON.
\<close>

theorem shape_error_is_retried:
  "custom_attempt digits_ge5 empty_object_response = Inl (ErrorInstance invalid_response_format)
   \<and> fst (custom_analyzeImage digits_ge5 always_empty_object 2)
       = Inl (Caught invalid_response_format)
   \<and> calls (snd (custom_analyzeImage digits_ge5 always_empty_object 2)) = 3
   \<and> sleeps (snd (custom_analyzeImage digits_ge5 always_empty_object 2)) = [1000, 2000]
   \<and> chat_attempt digits_ge5 sample_parse prose_response
       = Inl (ErrorInstance (failed_to_parse (utf16 ''I cannot describe this image.'')))
   \<and> calls (snd (chat_analyzeImage digits_ge5 sample_parse always_prose 2)) = 3
   \<and> sleeps (snd (chat_analyzeImage digits_ge5 sample_parse always_prose 2)) = [1000, 2000]"
proof -
  have c: "custom_attempt digits_ge5 empty_object_response
           = Inl (ErrorInstance invalid_response_format)"
    by (simp add: empty_object_response_def custom_attempt_def)
  have o: "chat_attempt digits_ge5 sample_parse prose_response
           = Inl (ErrorInstance (failed_to_parse (utf16 ''I cannot describe this image.'')))"
    by (simp add: prose_response_def chat_attempt_def parsedContent_def cleanContent_def
          trim_def is_white_def startsWith_def endsWith_def match_braces_def sample_parse_def
          utf16_def)
  show ?thesis
    by (simp add: c o custom_analyzeImage_def chat_analyzeImage_def withRetry_def
          withRetry_loop.simps custom_makeRequest_def chat_makeRequest_def
          always_empty_object_def always_prose_def calls_def sleeps_def)
qed

text \<open>
  C1, amended: in both adapters a format or shape error is retried like every other
  failure of an attempt. With \<open>n\<close> retries, a custom backend whose every response lacks
  the fields is asked \<open>n + 1\<close> times, and so is a chat endpoint whose every content
  fails to parse; the sleeps of the backoff lie between the attempts, and the error
  thrown is that of the last attempt.
\<close>

theorem format_errors_are_retried:
  assumes "\<forall>i\<le>n. custom_attempt ge5 (custom_net i) = Inl (ErrorInstance invalid_response_format)"
      and "\<forall>i\<le>n. \<exists>content. chat_attempt ge5 json_parse (chat_net i)
                                = Inl (ErrorInstance (failed_to_parse content))"
  shows "calls (snd (custom_analyzeImage ge5 custom_net (int n))) = n + 1
       \<and> fst (custom_analyzeImage ge5 custom_net (int n)) = Inl (Caught invalid_response_format)
       \<and> sleeps (snd (custom_analyzeImage ge5 custom_net (int n)))
           = map (\<lambda>i. 1000 * 2 ^ i) [0..<n]
       \<and> calls (snd (chat_analyzeImage ge5 json_parse chat_net (int n))) = n + 1
       \<and> (\<exists>content. chat_attempt ge5 json_parse (chat_net n)
                        = Inl (ErrorInstance (failed_to_parse content))
                    \<and> fst (chat_analyzeImage ge5 json_parse chat_net (int n))
                        = Inl (Caught (failed_to_parse content)))
       \<and> sleeps (snd (chat_analyzeImage ge5 json_parse chat_net (int n)))
           = map (\<lambda>i. 1000 * 2 ^ i) [0..<n]"
proof -
  have custom: "\<forall>i\<le>n. plain_failure (outcome (custom_makeRequest ge5 custom_net) 0 i)"
    using assms(1) by (simp add: outcome_custom plain_failure_def)
  have chat: "\<forall>i\<le>n. plain_failure (outcome (chat_makeRequest ge5 json_parse chat_net) 0 i)"
    using assms(2) by (auto simp: outcome_chat plain_failure_def)
  from assms(2) obtain content where
    last: "chat_attempt ge5 json_parse (chat_net n) = Inl (ErrorInstance (failed_to_parse content))"
    by blast
  show ?thesis
    using withRetry_exhausted_run [OF custom, of 1000] withRetry_exhausted_run [OF chat, of 1000]
      assms(1) last
    by (auto simp: custom_analyzeImage_def chat_analyzeImage_def outcome_custom outcome_chat
          calls_def sleeps_def count_backoff_events delays_backoff_events
          simp del: world_before.simps)
qed

theorem format_errors_are_retried_witness:
  "custom_attempt digits_ge5 empty_object_response = Inl (ErrorInstance invalid_response_format)
   \<and> chat_attempt digits_ge5 sample_parse prose_response
       = Inl (ErrorInstance (failed_to_parse (utf16 ''I cannot describe this image.'')))
   \<and> calls (snd (custom_analyzeImage digits_ge5 always_empty_object 2)) = 3
   \<and> fst (custom_analyzeImage digits_ge5 always_empty_object 2)
       = Inl (Caught invalid_response_format)
   \<and> calls (snd (chat_analyzeImage digits_ge5 sample_parse always_prose 2)) = 3
   \<and> fst (chat_analyzeImage digits_ge5 sample_parse always_prose 2)
       = Inl (Caught (failed_to_parse (utf16 ''I cannot describe this image.'')))"
proof -
  have c: "custom_attempt digits_ge5 empty_object_response
           = Inl (ErrorInstance invalid_response_format)"
    unfolding empty_object_response_def
    by (rule custom_shape_error [where data = "JObj []"]) simp_all
  have o: "chat_attempt digits_ge5 sample_parse prose_response
           = Inl (ErrorInstance (failed_to_parse (utf16 ''I cannot describe this image.'')))"
    by (simp add: prose_response_def chat_attempt_def parsedContent_def cleanContent_def
          trim_def is_white_def startsWith_def endsWith_def match_braces_def sample_parse_def
          utf16_def)
  have h1: "\<forall>i\<le>2. custom_attempt digits_ge5 (always_empty_object i)
                   = Inl (ErrorInstance invalid_response_format)"
    using c by (simp add: always_empty_object_def)
  have h2: "\<forall>i\<le>2. \<exists>content. chat_attempt digits_ge5 sample_parse (always_prose i)
                              = Inl (ErrorInstance (failed_to_parse content))"
    using o by (auto simp: always_prose_def)
  have last: "always_prose 2 = prose_response" by (simp add: always_prose_def)
  from format_errors_are_retried [OF h1 h2] obtain content where
    custom: "calls (snd (custom_analyzeImage digits_ge5 always_empty_object 2)) = 3"
      "fst (custom_analyzeImage digits_ge5 always_empty_object 2)
       = Inl (Caught invalid_response_format)"
    and chat: "calls (snd (chat_analyzeImage digits_ge5 sample_parse always_prose 2)) = 3"
      "chat_attempt digits_ge5 sample_parse (always_prose 2)
       = Inl (ErrorInstance (failed_to_parse content))"
      "fst (chat_analyzeImage digits_ge5 sample_parse always_prose 2)
       = Inl (Caught (failed_to_parse content))"
    by auto
  from chat(2) o have "failed_to_parse content
                       = failed_to_parse (utf16 ''I cannot describe this image.'')"
    by (simp add: last)
  with c o custom chat show ?thesis by simp
qed

section \<open>Properties of the validation\<close>









section \<open>Properties of the orchestrator\<close>

subsection \<open>The store\<close>

lemma execute_other: "i \<noteq> statement_id st \<Longrightarrow> execute st table i = table i"
  by (simp add: execute_def split: option.splits)

lemma execute_same:
  "table (statement_id st) = Some row \<Longrightarrow> execute st table (statement_id st) = Some (update_row st row)"
  by (simp add: execute_def)

lemma db_run_issued: "issued (snd (db_run env st s)) = issued s @ [st]"
  by (simp add: db_run_def split: option.splits)

lemma db_run_other:
  "i \<noteq> statement_id st \<Longrightarrow> images (snd (db_run env st s)) i = images s i"
  by (simp add: db_run_def execute_other split: option.splits)

lemma db_run_accepted:
  assumes "db_error env (length (issued s)) st = None"
  shows "db_run env st s = (None, \<lparr>images = execute st (images s), issued = issued s @ [st]\<rparr>)"
  using assms by (simp add: db_run_def)

lemma db_run_row:
  assumes "images s (statement_id st) = Some row"
  shows "\<exists>row'. images (snd (db_run env st s)) (statement_id st) = Some row'"
  using assms by (simp add: db_run_def execute_same split: option.splits)

lemma db_run_cases:
  obtains err where "db_run env st s = (Some err, s\<lparr>issued := issued s @ [st]\<rparr>)"
  | "db_run env st s = (None, \<lparr>images = execute st (images s), issued = issued s @ [st]\<rparr>)"
  by (cases "db_error env (length (issued s)) st") (auto simp: db_run_def)

subsection \<open>The body of the loop\<close>

lemma try_image_issued:
  assumes "try_image env r preset (s, w) = (res, s', w')"
  shows "\<exists>more. issued s' = issued s @ SetProcessing (image_id r) # more"
  using assms
  by (auto simp: try_image_def db_run_def split: option.splits prod.splits sum.splits)

lemma try_image_other:
  assumes "try_image env r preset (s, w) = (res, s', w')" and "i \<noteq> image_id r"
  shows "images s' i = images s i"
  using assms
  by (auto simp: try_image_def db_run_def execute_other split: option.splits prod.splits sum.splits)

lemma try_image_row:
  assumes "try_image env r preset (s, w) = (res, s', w')" and "images s (image_id r) = Some row"
  shows "\<exists>row'. images s' (image_id r) = Some row'"
  using assms
  by (auto simp: try_image_def db_run_def execute_def split: option.splits prod.splits sum.splits)

lemma try_image_completed:
  assumes "try_image env r preset (s, w) = (None, s', w')" and "images s (image_id r) = Some row"
  shows "\<exists>row'. images s' (image_id r) = Some row' \<and> col_status row' = Completed"
  using assms
  by (auto simp: try_image_def db_run_def execute_def split: option.splits prod.splits sum.splits)


lemma process_image_issued:
  assumes "process_image env r preset (s, w) = (res, s', w')"
  shows "\<exists>more. issued s' = issued s @ SetProcessing (image_id r) # more"
proof -
  obtain res1 s1 w1 where t: "try_image env r preset (s, w) = (res1, s1, w1)"
    by (cases "try_image env r preset (s, w)")
  from try_image_issued [OF t] obtain more where
    more: "issued s1 = issued s @ SetProcessing (image_id r) # more" by blast
  show ?thesis
  proof (cases res1)
    case None
    with assms t more show ?thesis by (simp add: process_image_def)
  next
    case (Some error)
    have "issued (snd (db_run env (SetError (image_id r) (error_message error)) s1))
          = issued s1 @ [SetError (image_id r) (error_message error)]"
      by (rule db_run_issued)
    with assms t more Some show ?thesis
      by (auto simp: process_image_def split: prod.splits option.splits)
  qed
qed

lemma process_image_other:
  assumes "process_image env r preset (s, w) = (res, s', w')" and "i \<noteq> image_id r"
  shows "images s' i = images s i"
proof -
  obtain res1 s1 w1 where t: "try_image env r preset (s, w) = (res1, s1, w1)"
    by (cases "try_image env r preset (s, w)")
  note other = try_image_other [OF t assms(2)]
  show ?thesis
  proof (cases res1)
    case None
    with assms t other show ?thesis by (simp add: process_image_def)
  next
    case (Some error)
    have "images (snd (db_run env (SetError (image_id r) (error_message error)) s1)) i
          = images s1 i"
      using assms(2) by (simp add: db_run_other)
    with assms t other Some show ?thesis
      by (auto simp: process_image_def split: prod.splits option.splits)
  qed
qed

lemma process_image_row:
  assumes "process_image env r preset (s, w) = (res, s', w')"
      and "images s (image_id r) = Some row"
  shows "\<exists>row'. images s' (image_id r) = Some row'"
proof -
  obtain res1 s1 w1 where t: "try_image env r preset (s, w) = (res1, s1, w1)"
    by (cases "try_image env r preset (s, w)")
  from try_image_row [OF t assms(2)] obtain row1 where
    row1: "images s1 (image_id r) = Some row1" by blast
  show ?thesis
  proof (cases res1)
    case None
    with assms t row1 show ?thesis by (simp add: process_image_def)
  next
    case (Some error)
    from db_run_row [of s1 "SetError (image_id r) (error_message error)" row1 env] row1
    obtain row' where
      "images (snd (db_run env (SetError (image_id r) (error_message error)) s1)) (image_id r)
       = Some row'" by auto
    with assms t Some show ?thesis
      by (auto simp: process_image_def split: prod.splits option.splits)
  qed
qed

text \<open>
  When the try body throws and the store accepts the update, the catch records the
  message in the row of the image, and the loop body returns.
\<close>

lemma process_image_error:
  assumes "try_image env r preset (s, w) = (Some error, s1, w1)"
      and "db_error env (length (issued s1)) (SetError (image_id r) (error_message error)) = None"
  shows "process_image env r preset (s, w) =
           (None,
            \<lparr>images = execute (SetError (image_id r) (error_message error)) (images s1),
             issued = issued s1 @ [SetError (image_id r) (error_message error)]\<rparr>,
            w1)"
  using assms by (simp add: process_image_def db_run_accepted)

lemma process_image_accepted:
  assumes "accepts_error_updates env"
  shows "fst (process_image env r preset sw) = None"
proof -
  obtain res1 s1 w1 where t: "try_image env r preset sw = (res1, s1, w1)"
    by (cases "try_image env r preset sw")
  show ?thesis
  proof (cases res1)
    case None
    with t show ?thesis by (simp add: process_image_def)
  next
    case (Some error)
    from assms have "db_error env (length (issued s1))
                       (SetError (image_id r) (error_message error)) = None"
      by (simp add: accepts_error_updates_def)
    then show ?thesis using t Some by (simp add: process_image_def db_run_accepted)
  qed
qed

lemma process_image_terminal:
  assumes "accepts_error_updates env"
      and "process_image env r preset (s, w) = (res, s', w')"
      and "images s (image_id r) = Some row"
  shows "\<exists>row'. images s' (image_id r) = Some row' \<and> terminal row'"
proof -
  obtain res1 s1 w1 where t: "try_image env r preset (s, w) = (res1, s1, w1)"
    by (cases "try_image env r preset (s, w)")
  show ?thesis
  proof (cases res1)
    case None
    from try_image_completed [OF t [unfolded None] assms(3)] assms(2) t None
    show ?thesis by (auto simp: process_image_def terminal_def)
  next
    case (Some error)
    from try_image_row [OF t assms(3)] obtain row1 where
      row1: "images s1 (image_id r) = Some row1" by blast
    from assms(1) have "db_error env (length (issued s1))
                          (SetError (image_id r) (error_message error)) = None"
      by (simp add: accepts_error_updates_def)
    from process_image_error [OF t [unfolded Some] this] assms(2) row1
    show ?thesis by (auto simp: execute_def terminal_def)
  qed
qed

subsection \<open>The batch\<close>

lemma processImagesAsync_append:
  "processImagesAsync env (xs @ ys) preset sw =
     (case processImagesAsync env xs preset sw of
        (Some err, sw1) \<Rightarrow> (Some err, sw1)
      | (None, sw1) \<Rightarrow> processImagesAsync env ys preset sw1)"
  by (induction xs arbitrary: sw) (auto split: prod.splits option.splits)

lemma processImagesAsync_accepted:
  assumes "accepts_error_updates env"
  shows "fst (processImagesAsync env rs preset sw) = None"
proof (induction rs arbitrary: sw)
  case Nil
  then show ?case by simp
next
  case (Cons r rs)
  obtain sw1 where "process_image env r preset sw = (None, sw1)"
    using process_image_accepted [OF assms, of r preset sw]
    by (cases "process_image env r preset sw") auto
  with Cons show ?case by simp
qed

lemma processImagesAsync_other:
  assumes "processImagesAsync env rs preset (s, w) = (res, s', w')"
      and "i \<notin> image_id ` set rs"
  shows "images s' i = images s i"
  using assms
proof (induction rs arbitrary: s w)
  case Nil
  then show ?case by simp
next
  case (Cons r rs)
  obtain res1 s1 w1 where p: "process_image env r preset (s, w) = (res1, s1, w1)"
    by (cases "process_image env r preset (s, w)")
  from Cons.prems(2) have i: "i \<noteq> image_id r" "i \<notin> image_id ` set rs" by auto
  note first = process_image_other [OF p i(1)]
  show ?case
  proof (cases res1)
    case None
    with Cons.prems(1) p have "processImagesAsync env rs preset (s1, w1) = (res, s', w')"
      by simp
    from Cons.IH [OF this i(2)] first show ?thesis by simp
  next
    case (Some err)
    with Cons.prems(1) p first show ?thesis by simp
  qed
qed

lemma processImagesAsync_started:
  assumes "accepts_error_updates env"
      and "processImagesAsync env rs preset (s, w) = (res, s', w')"
  shows "\<exists>more. issued s' = issued s @ more
           \<and> (\<forall>r\<in>set rs. SetProcessing (image_id r) \<in> set more)"
  using assms(2)
proof (induction rs arbitrary: s w)
  case Nil
  then show ?case by simp
next
  case (Cons r rs)
  obtain res1 s1 w1 where p: "process_image env r preset (s, w) = (res1, s1, w1)"
    by (cases "process_image env r preset (s, w)")
  from process_image_accepted [OF assms(1), of r preset "(s, w)"] p have "res1 = None" by simp
  with Cons.prems p have rest: "processImagesAsync env rs preset (s1, w1) = (res, s', w')"
    by simp
  from process_image_issued [OF p] obtain more1 where
    more1: "issued s1 = issued s @ SetProcessing (image_id r) # more1" by blast
  from Cons.IH [OF rest] obtain more where
    more: "issued s' = issued s1 @ more" "\<forall>r\<in>set rs. SetProcessing (image_id r) \<in> set more"
    by blast
  have "issued s' = issued s @ (SetProcessing (image_id r) # more1 @ more)"
    using more1 more(1) by simp
  moreover have "\<forall>q\<in>set (r # rs). SetProcessing (image_id q)
                    \<in> set (SetProcessing (image_id r) # more1 @ more)"
    using more(2) by auto
  ultimately show ?case by blast
qed

lemma processImagesAsync_terminal:
  assumes "accepts_error_updates env"
      and "processImagesAsync env rs preset (s, w) = (res, s', w')"
      and "distinct (map image_id rs)"
      and "r \<in> set rs" and "images s (image_id r) = Some row"
  shows "\<exists>row'. images s' (image_id r) = Some row' \<and> terminal row'"
  using assms(2-)
proof (induction rs arbitrary: s w row)
  case Nil
  then show ?case by simp
next
  case (Cons q rs)
  obtain res1 s1 w1 where p: "process_image env q preset (s, w) = (res1, s1, w1)"
    by (cases "process_image env q preset (s, w)")
  from process_image_accepted [OF assms(1), of q preset "(s, w)"] p have "res1 = None" by simp
  with Cons.prems(1) p have rest: "processImagesAsync env rs preset (s1, w1) = (res, s', w')"
    by simp
  from Cons.prems(2) have d: "image_id q \<notin> image_id ` set rs" "distinct (map image_id rs)"
    by simp_all
  show ?case
  proof (cases "r = q")
    case True
    from process_image_terminal [OF assms(1) p] Cons.prems(4) True obtain row1 where
      "images s1 (image_id q) = Some row1" "terminal row1" by auto
    with processImagesAsync_other [OF rest d(1)] True show ?thesis by simp
  next
    case False
    with Cons.prems(3) have r: "r \<in> set rs" by simp
    with d(1) have "image_id r \<noteq> image_id q" by (metis imageI)
    from process_image_other [OF p this] Cons.prems(4)
    have "images s1 (image_id r) = Some row" by simp
    from Cons.IH [OF rest d(2) r this] show ?thesis .
  qed
qed

subsection \<open>The claim on the batch\<close>

lemmas eval_orchestrator =
  process_image_def try_image_def db_run_def execute_def
  validateMetadata_def title_validation_def alt_text_validation_def keywords_validation_def
  or_default_def trim_def is_white_def too_few_def too_many_def number_string_def decimal.simps
  ascii_toLowerCase_def array_from_set_def set_add_def result_json_def utf16_def Let_def
  red_car_result_def red_car_keywords_def red_car_example_def second_times_out_def
  image1_def image2_def image3_def three_pending_def pending_row_def
  request_timeout_def readonly_database_def new_Error_def

text \<open>
  C6, as stated, fails when the store rejects the error update. The \<open>catch\<close> awaits
  \<open>db.run\<close>, whose callback rejects the promise on an error, and nothing catches that
  rejection. With the store failing from its fourth statement on, the time-out of the
  second image leaves its row in \<open>processing\<close>, \<open>processImagesAsync\<close> rejects, and the
  third image is never processed.
\<close>

theorem failing_store_stops_batch:
  "fst (processImagesAsync failing_store_env [image1, image2, image3] None (three_pending, ()))
     = Some (ErrorInstance readonly_database)
   \<and> issued (fst (snd (processImagesAsync failing_store_env [image1, image2, image3] None
                         (three_pending, ()))))
     = [SetProcessing (utf16 ''img-1''),
        SetCompleted (utf16 ''img-1'') (JStr (utf16 ''A red car on a street''))
          (JStr (utf16 ''Red car in urban setting'')) red_car_keywords,
        SetProcessing (utf16 ''img-2''),
        SetError (utf16 ''img-2'') (utf16 ''Request timeout'')]
   \<and> images (fst (snd (processImagesAsync failing_store_env [image1, image2, image3] None
                         (three_pending, ())))) (utf16 ''img-2'')
     = Some (pending_row\<lparr>col_status := Processing\<rparr>)
   \<and> images (fst (snd (processImagesAsync failing_store_env [image1, image2, image3] None
                         (three_pending, ())))) (utf16 ''img-3'')
     = Some pending_row"
  by (simp add: failing_store_env_def eval_orchestrator)

text \<open>
  C6, amended: let the store accept the error updates. When the body of the \<open>try\<close>
  throws for one image of a batch with distinct ids, whatever it throws (from the
  endpoint, the validation, or another statement of the store), then
  \<^item> \<open>processImagesAsync\<close> returns, and goes on with the images after it exactly as it
    would process them as a batch of their own, from the store in which the error update
    has been executed;
  \<^item> that update changes the row of the failed image only;
  \<^item> in the end the row of the failed image has status \<open>error\<close> and holds the message:
    the message of the Error thrown, and \<open>Unknown error\<close> for a value that is no Error;
  \<^item> the processing of every later image is started, and its row, if it has one, ends
    in a terminal state.
\<close>

theorem failed_image_does_not_stop_batch:
  assumes "accepts_error_updates env"
      and "distinct (map image_id (before @ record # after))"
      and "processImagesAsync env before preset sw0 = (None, s1, w1)"
      and "try_image env record preset (s1, w1) = (Some error, s2, w2)"
      and "images s1 (image_id record) = Some row"
  shows "fst (processImagesAsync env (before @ record # after) preset sw0) = None
       \<and> processImagesAsync env (before @ record # after) preset sw0
           = processImagesAsync env after preset
               (\<lparr>images = execute (SetError (image_id record) (error_message error)) (images s2),
                 issued = issued s2 @ [SetError (image_id record) (error_message error)]\<rparr>, w2)
       \<and> (\<forall>i. i \<noteq> image_id record
              \<longrightarrow> execute (SetError (image_id record) (error_message error)) (images s2) i
                  = images s2 i)
       \<and> (\<exists>row'. images (fst (snd (processImagesAsync env (before @ record # after) preset sw0)))
                    (image_id record) = Some row'
                 \<and> col_status row' = ErrorStatus
                 \<and> col_error_message row' = Some (error_message error))
       \<and> (\<forall>r\<in>set after.
              SetProcessing (image_id r)
                \<in> set (issued (fst (snd (processImagesAsync env (before @ record # after)
                                             preset sw0)))))
       \<and> (\<forall>r\<in>set after. \<forall>row. images s1 (image_id r) = Some row
              \<longrightarrow> (\<exists>row'. images (fst (snd (processImagesAsync env (before @ record # after)
                                                 preset sw0))) (image_id r) = Some row'
                          \<and> terminal row'))"
proof -
  let ?st = "SetError (image_id record) (error_message error)"
  let ?s3 = "\<lparr>images = execute ?st (images s2), issued = issued s2 @ [?st]\<rparr>"
  let ?final = "processImagesAsync env (before @ record # after) preset sw0"
  obtain res s' w' where rest: "processImagesAsync env after preset (?s3, w2) = (res, s', w')"
    by (cases "processImagesAsync env after preset (?s3, w2)")
  from assms(1) have "db_error env (length (issued s2)) ?st = None"
    by (simp add: accepts_error_updates_def)
  from process_image_error [OF assms(4) this]
  have body: "process_image env record preset (s1, w1) = (None, ?s3, w2)" .
  have eq: "?final = processImagesAsync env after preset (?s3, w2)"
    using assms(3) body by (simp add: processImagesAsync_append)
  have returns: "fst ?final = None"
    by (rule processImagesAsync_accepted [OF assms(1)])
  have frame: "\<forall>i. i \<noteq> image_id record \<longrightarrow> execute ?st (images s2) i = images s2 i"
    by (simp add: execute_other)
  from assms(2) have d: "image_id record \<notin> image_id ` set after" "distinct (map image_id after)"
    by simp_all
  from try_image_row [OF assms(4,5)] obtain row2 where
    row2: "images s2 (image_id record) = Some row2" by blast
  then have "images ?s3 (image_id record) = Some (update_row ?st row2)"
    by (simp add: execute_def)
  with processImagesAsync_other [OF rest d(1)]
  have "images s' (image_id record) = Some (update_row ?st row2)" by simp
  then have failed: "\<exists>row'. images (fst (snd ?final)) (image_id record) = Some row'
                            \<and> col_status row' = ErrorStatus
                            \<and> col_error_message row' = Some (error_message error)"
    by (simp add: eq rest)
  from processImagesAsync_started [OF assms(1) rest]
  have started: "\<forall>r\<in>set after. SetProcessing (image_id r) \<in> set (issued (fst (snd ?final)))"
    by (auto simp: eq rest)
  have later: "\<exists>row'. images (fst (snd ?final)) (image_id r) = Some row' \<and> terminal row'"
    if r: "r \<in> set after" and row: "images s1 (image_id r) = Some row" for r row
  proof -
    from r d(1) have ne: "image_id r \<noteq> image_id record" by (metis imageI)
    from try_image_other [OF assms(4) ne] row have "images s2 (image_id r) = Some row" by simp
    with ne have "images ?s3 (image_id r) = Some row" by (simp add: execute_other)
    from processImagesAsync_terminal [OF assms(1) rest d(2) r this]
    show ?thesis by (simp add: eq rest)
  qed
  from returns eq frame failed started later show ?thesis by blast
qed

theorem failed_image_does_not_stop_batch_witness:
  "accepts_error_updates healthy_env
   \<and> distinct (map image_id [image1, image2, image3])
   \<and> fst (processImagesAsync healthy_env [image1] None (three_pending, ())) = None
   \<and> fst (try_image healthy_env image2 None
             (snd (processImagesAsync healthy_env [image1] None (three_pending, ()))))
       = Some (ErrorInstance request_timeout)
   \<and> images (fst (snd (processImagesAsync healthy_env [image1] None (three_pending, ()))))
        (utf16 ''img-2'') = Some pending_row
   \<and> fst (processImagesAsync healthy_env [image1, image2, image3] None (three_pending, ())) = None
   \<and> (\<exists>row'. images (fst (snd (processImagesAsync healthy_env [image1, image2, image3] None
                                  (three_pending, ())))) (utf16 ''img-2'') = Some row'
             \<and> col_status row' = ErrorStatus
             \<and> col_error_message row' = Some (utf16 ''Request timeout''))
   \<and> SetProcessing (utf16 ''img-3'')
       \<in> set (issued (fst (snd (processImagesAsync healthy_env [image1, image2, image3] None
                                   (three_pending, ())))))
   \<and> (\<exists>row'. images (fst (snd (processImagesAsync healthy_env [image1, image2, image3] None
                                  (three_pending, ())))) (utf16 ''img-3'') = Some row'
             \<and> terminal row')"
proof -
  let ?final = "processImagesAsync healthy_env [image1, image2, image3] None (three_pending, ())"
  have h1: "accepts_error_updates healthy_env"
    by (simp add: accepts_error_updates_def healthy_env_def)
  have h2: "distinct (map image_id ([image1] @ image2 # [image3]))"
    by (simp add: image1_def image2_def image3_def utf16_def)
  obtain s1 where h3: "processImagesAsync healthy_env [image1] None (three_pending, ())
                        = (None, s1, ())"
    using processImagesAsync_accepted [OF h1, of "[image1]" None "(three_pending, ())"]
    by (cases "processImagesAsync healthy_env [image1] None (three_pending, ())") auto
  obtain s2 where h4: "try_image healthy_env image2 None (s1, ())
                        = (Some (ErrorInstance request_timeout), s2, ())"
    by (simp add: try_image_def db_run_def healthy_env_def second_times_out_def image2_def)
  have "image_id image2 \<notin> image_id ` set [image1]"
    by (simp add: image1_def image2_def utf16_def)
  from processImagesAsync_other [OF h3 this]
  have h5: "images s1 (image_id image2) = Some pending_row"
    by (simp add: three_pending_def image2_def utf16_def)
  have "image_id image3 \<notin> image_id ` set [image1]"
    by (simp add: image1_def image3_def utf16_def)
  from processImagesAsync_other [OF h3 this]
  have row3: "images s1 (image_id image3) = Some pending_row"
    by (simp add: three_pending_def image3_def utf16_def)
  have ids: "image_id image2 = utf16 ''img-2''" "image_id image3 = utf16 ''img-3''"
    by (simp_all add: image2_def image3_def)
  have msg: "message request_timeout = utf16 ''Request timeout''"
    by (simp add: request_timeout_def new_Error_def)
  note whole = failed_image_does_not_stop_batch [OF h1 h2 h3 h4 h5]
  note rest = whole [THEN conjunct2, THEN conjunct2, THEN conjunct2]
  from whole [THEN conjunct1]
  have returns: "fst ?final = None" by (simp del: processImagesAsync.simps)
  from rest [THEN conjunct1]
  have failed: "\<exists>row'. images (fst (snd ?final)) (utf16 ''img-2'') = Some row'
                       \<and> col_status row' = ErrorStatus
                       \<and> col_error_message row' = Some (utf16 ''Request timeout'')"
    by (simp add: ids msg del: processImagesAsync.simps)
  from rest [THEN conjunct2, THEN conjunct1]
  have started: "SetProcessing (utf16 ''img-3'') \<in> set (issued (fst (snd ?final)))"
    by (simp add: ids del: processImagesAsync.simps)
  from rest [THEN conjunct2, THEN conjunct2] row3
  have later: "\<exists>row'. images (fst (snd ?final)) (utf16 ''img-3'') = Some row' \<and> terminal row'"
    by (simp add: ids del: processImagesAsync.simps)
  from h1 h2 h3 h4 h5 returns failed started later
  show ?thesis by (simp add: ids del: processImagesAsync.simps)
qed

end
